theory Spec2Isabelle
  imports Main "HOL-Library.Word"
begin

section \<open>Data model\<close>

text \<open>
  The App controller of \<^verbatim>\<open>controllers\<close> (the file with \<^verbatim>\<open>Reconcile\<close>,
  \<^verbatim>\<open>deploymentEqual\<close> and \<^verbatim>\<open>serviceEqual\<close>) and the resource types of
  \<^verbatim>\<open>api/v1/app_types.go\<close>. Go structs are records; a Go field keeps its name and
  is written with its record as qualifier (\<open>AppSpec.Replicas\<close>), since several structs
  share field names. \<^verbatim>\<open>int32\<close> is a 32-bit word read as two's complement,
  \<^verbatim>\<open>time.Duration\<close> a 64-bit word, Go's \<^verbatim>\<open>int\<close> (64 bits, never overflowed
  by the conversions from \<^verbatim>\<open>int32\<close> made here) is \<open>int\<close>. A pointer field is an
  \<open>option\<close>, \<open>None\<close> being nil. A \<^verbatim>\<open>map[string]string\<close> is a map.

  The Kubernetes structs (\<^verbatim>\<open>ObjectMeta\<close>, \<^verbatim>\<open>Deployment\<close>, \<^verbatim>\<open>Service\<close>,
  \<^verbatim>\<open>Pod\<close> and their parts) are declared outside the repository; the records carry
  the fields the controller reads or sets, under the names it uses.
\<close>

type_synonym int32 = "32 word"
type_synonym Duration = "64 word"

record OwnerReference =
  APIVersion :: string
  Kind :: string
  Name :: string
  UID :: string
  Controller :: bool
  BlockOwnerDeletion :: bool

record ObjectMeta =
  Name :: string
  Namespace :: string
  UID :: string
  Labels :: "string \<rightharpoonup> string"
  OwnerReferences :: "OwnerReference list"

subsection \<open>api/v1/app_types.go\<close>

record AppSpec =
  Image :: string
  Replicas :: int32
  Port :: int32

record Condition =
  Type :: string
  Status :: string
  Reason :: string
  Message :: string

record AppStatus =
  Replicas :: int32
  Conditions :: "Condition list"

record App =
  ObjectMeta :: ObjectMeta
  Spec :: AppSpec
  Status :: AppStatus

subsection \<open>Deployment, Service and Pod\<close>

record ContainerPort =
  ContainerPort :: int32

record Container =
  Name :: string
  Image :: string
  Ports :: "ContainerPort list"

record PodSpec =
  Containers :: "Container list"

record PodTemplateSpec =
  ObjectMeta :: ObjectMeta
  Spec :: PodSpec

record LabelSelector =
  MatchLabels :: "string \<rightharpoonup> string"

record DeploymentSpec =
  Replicas :: "int32 option"
  Selector :: "LabelSelector option"
  Template :: PodTemplateSpec

record Deployment =
  ObjectMeta :: ObjectMeta
  Spec :: DeploymentSpec

text \<open>
  Modelled from the spec: the target port and its "numeric value" (section 4.2).
  \<^verbatim>\<open>intstr.IntOrString\<close> is declared outside the repository: an integer or a string,
  told apart by \<open>Type\<close>. \<^verbatim>\<open>FromInt\<close> makes the integer one; \<^verbatim>\<open>IntValue\<close> reads
  the integer, or parses the string with \<^verbatim>\<open>strconv.Atoi\<close> (its error dropped).
  \<^verbatim>\<open>Atoi\<close> is a parameter of the model, \<open>atoi\<close>: every theorem holds for all of
  its values.
\<close>

datatype IntStrType = IntT | StringT

record IntOrString =
  Type :: IntStrType
  IntVal :: int32
  StrVal :: string

definition FromInt :: "int \<Rightarrow> IntOrString" where
  "FromInt val = \<lparr>IntOrString.Type = IntT, IntVal = word_of_int val, StrVal = ''''\<rparr>"

definition IntValue :: "(string \<Rightarrow> int) \<Rightarrow> IntOrString \<Rightarrow> int" where
  "IntValue atoi intstr =
     (if IntOrString.Type intstr = StringT then atoi (StrVal intstr)
      else sint (IntVal intstr))"

record ServicePort =
  Protocol :: string
  Port :: int32
  TargetPort :: IntOrString

record ServiceSpec =
  Selector :: "string \<rightharpoonup> string"
  Ports :: "ServicePort list"
  Type :: string

record Service =
  ObjectMeta :: ObjectMeta
  Spec :: ServiceSpec

record PodCondition =
  Type :: string
  Status :: string

record PodStatus =
  Conditions :: "PodCondition list"

record Pod =
  ObjectMeta :: ObjectMeta
  Status :: PodStatus

definition ProtocolTCP :: string where "ProtocolTCP = ''TCP''"
definition ServiceTypeClusterIP :: string where "ServiceTypeClusterIP = ''ClusterIP''"
definition PodReady :: string where "PodReady = ''Ready''"
definition ConditionTrue :: string where "ConditionTrue = ''True''"

section \<open>The partial-equality policy\<close>

text \<open>
  \<^verbatim>\<open>deploymentEqual\<close> dereferences both \<^verbatim>\<open>Replicas\<close> pointers before anything
  else: with a nil pointer the Go function panics, and the model returns \<open>None\<close>. The
  indexed reads \<^verbatim>\<open>Containers[0]\<close> and \<^verbatim>\<open>Ports[0]\<close> of \<open>b\<close> are made only
  after the lengths were found equal and the length of \<open>a\<close> positive, so every
  \<open>! 0\<close> below is in range.
\<close>

definition deploymentEqual :: "DeploymentSpec \<Rightarrow> DeploymentSpec \<Rightarrow> bool option" where
  "deploymentEqual a b =
     (case (DeploymentSpec.Replicas a, DeploymentSpec.Replicas b) of
        (Some ra, Some rb) \<Rightarrow>
          (let ca = Containers (PodTemplateSpec.Spec (Template a));
               cb = Containers (PodTemplateSpec.Spec (Template b))
           in if ra \<noteq> rb then Some False
              else if length ca \<noteq> length cb then Some False
              else if length ca > 0 then
                (if Container.Image (ca ! 0) \<noteq> Container.Image (cb ! 0) then Some False
                 else if length (Container.Ports (ca ! 0)) \<noteq> length (Container.Ports (cb ! 0))
                   then Some False
                 else if length (Container.Ports (ca ! 0)) > 0
                       \<and> ContainerPort (Container.Ports (ca ! 0) ! 0)
                           \<noteq> ContainerPort (Container.Ports (cb ! 0) ! 0)
                   then Some False
                 else Some True)
              else Some True)
      | _ \<Rightarrow> None)"

definition serviceEqual :: "(string \<Rightarrow> int) \<Rightarrow> ServiceSpec \<Rightarrow> ServiceSpec \<Rightarrow> bool" where
  "serviceEqual atoi a b =
     (if ServiceSpec.Type a \<noteq> ServiceSpec.Type b then False
      else if length (ServiceSpec.Ports a) \<noteq> length (ServiceSpec.Ports b) then False
      else if length (ServiceSpec.Ports a) > 0 \<and> length (ServiceSpec.Ports b) > 0 then
        (if Port (ServiceSpec.Ports a ! 0) \<noteq> Port (ServiceSpec.Ports b ! 0)
            \<or> IntValue atoi (TargetPort (ServiceSpec.Ports a ! 0))
                \<noteq> IntValue atoi (TargetPort (ServiceSpec.Ports b ! 0))
            \<or> Protocol (ServiceSpec.Ports a ! 0) \<noteq> Protocol (ServiceSpec.Ports b ! 0)
         then False
         else True)
      else True)"

section \<open>The resource store\<close>

text \<open>
  The client (\<^verbatim>\<open>client.Client\<close>, embedded in \<^verbatim>\<open>AppReconciler\<close>) is declared
  outside the repository. Its model is an explicit store: the objects of each kind, found
  by namespace and name, with a log of the write calls issued and, for each call of one
  invocation, the failure the server answers it with, if any.
\<close>

datatype error = AbsenceError | TransientStoreError string | OwnershipLinkError string

definition IsNotFound :: "error \<Rightarrow> bool" where
  "IsNotFound err = (err = AbsenceError)"

record NamespacedName =
  Namespace :: string
  Name :: string

datatype Call =
    GetApp | GetDeployment | CreateDeployment | UpdateDeployment
  | GetService | CreateService | UpdateService | ListPods | UpdateStatus

datatype Write =
    WriteCreateDeployment Deployment
  | WriteUpdateDeployment Deployment
  | WriteCreateService Service
  | WriteUpdateService Service
  | WriteUpdateStatus App

record Store =
  apps :: "App list"
  deployments :: "Deployment list"
  services :: "Service list"
  pods :: "Pod list"
  writes :: "Write list"
  fault :: "Call \<Rightarrow> string option"

definition named :: "NamespacedName \<Rightarrow> ObjectMeta \<Rightarrow> bool" where
  "named key m =
     (ObjectMeta.Namespace m = NamespacedName.Namespace key
      \<and> ObjectMeta.Name m = NamespacedName.Name key)"

definition keyOf :: "ObjectMeta \<Rightarrow> NamespacedName" where
  "keyOf m = \<lparr>NamespacedName.Namespace = ObjectMeta.Namespace m,
              NamespacedName.Name = ObjectMeta.Name m\<rparr>"

fun replaceFirst :: "('a \<Rightarrow> bool) \<Rightarrow> 'a \<Rightarrow> 'a list \<Rightarrow> 'a list" where
  "replaceFirst P y [] = []"
| "replaceFirst P y (x # xs) = (if P x then y # xs else x # replaceFirst P y xs)"

text \<open>
  Modelled from the spec: the Resource Store's get, create, update and list (section 2:
  operations "against a remote declarative-state API, keyed by kind + namespace + name";
  section 7: a missing resource is an AbsenceError, any other failure a
  TransientStoreError). A read changes nothing. A write call is logged whether or not it
  succeeds; a create of a present name and an update of an absent one fail.
\<close>

definition getApp :: "NamespacedName \<Rightarrow> Store \<Rightarrow> error + App" where
  "getApp key s =
     (case fault s GetApp of
        Some msg \<Rightarrow> Inl (TransientStoreError msg)
      | None \<Rightarrow>
         (case find (\<lambda>a. named key (App.ObjectMeta a)) (apps s) of
            None \<Rightarrow> Inl AbsenceError
          | Some a \<Rightarrow> Inr a))"

definition getDeployment :: "NamespacedName \<Rightarrow> Store \<Rightarrow> error + Deployment" where
  "getDeployment key s =
     (case fault s GetDeployment of
        Some msg \<Rightarrow> Inl (TransientStoreError msg)
      | None \<Rightarrow>
         (case find (\<lambda>d. named key (Deployment.ObjectMeta d)) (deployments s) of
            None \<Rightarrow> Inl AbsenceError
          | Some d \<Rightarrow> Inr d))"

definition getService :: "NamespacedName \<Rightarrow> Store \<Rightarrow> error + Service" where
  "getService key s =
     (case fault s GetService of
        Some msg \<Rightarrow> Inl (TransientStoreError msg)
      | None \<Rightarrow>
         (case find (\<lambda>v. named key (Service.ObjectMeta v)) (services s) of
            None \<Rightarrow> Inl AbsenceError
          | Some v \<Rightarrow> Inr v))"

definition createDeployment :: "Deployment \<Rightarrow> Store \<Rightarrow> error option \<times> Store" where
  "createDeployment d s =
     (let s' = s\<lparr>writes := writes s @ [WriteCreateDeployment d]\<rparr>;
          present = (\<lambda>x. named (keyOf (Deployment.ObjectMeta d)) (Deployment.ObjectMeta x))
      in case fault s CreateDeployment of
           Some msg \<Rightarrow> (Some (TransientStoreError msg), s')
         | None \<Rightarrow>
            (if find present (deployments s) \<noteq> None
             then (Some (TransientStoreError ''already exists''), s')
             else (None, s'\<lparr>deployments := deployments s @ [d]\<rparr>)))"

definition updateDeployment :: "Deployment \<Rightarrow> Store \<Rightarrow> error option \<times> Store" where
  "updateDeployment d s =
     (let s' = s\<lparr>writes := writes s @ [WriteUpdateDeployment d]\<rparr>;
          present = (\<lambda>x. named (keyOf (Deployment.ObjectMeta d)) (Deployment.ObjectMeta x))
      in case fault s UpdateDeployment of
           Some msg \<Rightarrow> (Some (TransientStoreError msg), s')
         | None \<Rightarrow>
            (if find present (deployments s) = None
             then (Some AbsenceError, s')
             else (None, s'\<lparr>deployments := replaceFirst present d (deployments s)\<rparr>)))"

definition createService :: "Service \<Rightarrow> Store \<Rightarrow> error option \<times> Store" where
  "createService v s =
     (let s' = s\<lparr>writes := writes s @ [WriteCreateService v]\<rparr>;
          present = (\<lambda>x. named (keyOf (Service.ObjectMeta v)) (Service.ObjectMeta x))
      in case fault s CreateService of
           Some msg \<Rightarrow> (Some (TransientStoreError msg), s')
         | None \<Rightarrow>
            (if find present (services s) \<noteq> None
             then (Some (TransientStoreError ''already exists''), s')
             else (None, s'\<lparr>services := services s @ [v]\<rparr>)))"

definition updateService :: "Service \<Rightarrow> Store \<Rightarrow> error option \<times> Store" where
  "updateService v s =
     (let s' = s\<lparr>writes := writes s @ [WriteUpdateService v]\<rparr>;
          present = (\<lambda>x. named (keyOf (Service.ObjectMeta v)) (Service.ObjectMeta x))
      in case fault s UpdateService of
           Some msg \<Rightarrow> (Some (TransientStoreError msg), s')
         | None \<Rightarrow>
            (if find present (services s) = None
             then (Some AbsenceError, s')
             else (None, s'\<lparr>services := replaceFirst present v (services s)\<rparr>)))"

text \<open>
  Modelled from the spec: the listing of section 4.3 ("lists pods labeled app=<App.name>
  in the App's namespace"). \<^verbatim>\<open>List\<close> with \<^verbatim>\<open>InNamespace\<close> and
  \<^verbatim>\<open>MatchingLabels\<close> answers the pods of the namespace that carry every label of the
  selector.
\<close>

definition listPods :: "string \<Rightarrow> (string \<times> string) list \<Rightarrow> Store \<Rightarrow> error + Pod list" where
  "listPods ns labels s =
     (case fault s ListPods of
        Some msg \<Rightarrow> Inl (TransientStoreError msg)
      | None \<Rightarrow>
         Inr (filter (\<lambda>p. ObjectMeta.Namespace (Pod.ObjectMeta p) = ns
                          \<and> list_all (\<lambda>(k, v). Labels (Pod.ObjectMeta p) k = Some v) labels)
                     (pods s)))"

text \<open>
  Modelled from the spec: the status write of section 4.3 ("writes the new count back to
  App.status.replicas"; section 6: the status is a subresource of the App).
  \<^verbatim>\<open>Status().Update\<close> takes the status of the object passed and leaves the stored
  metadata and spec as they are.
\<close>

definition updateStatus :: "App \<Rightarrow> Store \<Rightarrow> error option \<times> Store" where
  "updateStatus app s =
     (let s' = s\<lparr>writes := writes s @ [WriteUpdateStatus app]\<rparr>;
          present = (\<lambda>x. named (keyOf (App.ObjectMeta app)) (App.ObjectMeta x))
      in case fault s UpdateStatus of
           Some msg \<Rightarrow> (Some (TransientStoreError msg), s')
         | None \<Rightarrow>
            (case find present (apps s) of
               None \<Rightarrow> (Some AbsenceError, s')
             | Some stored \<Rightarrow>
                (None, s'\<lparr>apps := replaceFirst present
                                      (stored\<lparr>App.Status := App.Status app\<rparr>) (apps s)\<rparr>)))"

section \<open>The reconciler\<close>

text \<open>
  \<^verbatim>\<open>runtime.Scheme\<close> is used for one thing here: to find the group, version and kind
  of the owner's Go type. The model keeps what the scheme answers for \<^verbatim>\<open>App\<close>: its
  \<open>(apiVersion, kind)\<close>, or \<open>None\<close> when the type is not registered.
\<close>

record AppReconciler =
  Scheme :: "(string \<times> string) option"

record Request =
  NamespacedName :: NamespacedName

record Result =
  Requeue :: bool
  RequeueAfter :: Duration

definition Second :: Duration where
  "Second = 1000000000"

text \<open>
  What one invocation of \<^verbatim>\<open>Reconcile\<close> does: it returns its pair of a result and
  an error (\<open>None\<close> being nil), or it panics.
\<close>

datatype outcome = Return Result "error option" | Panic

datatype step = Proceed | Abort error | NilPanic

text \<open>
  Modelled from the spec: the ownership link (section 4.2: the child is created "having
  first attached the ownership link"; section 7: an OwnershipLinkError "aborts before
  any write of that child"). \<^verbatim>\<open>ctrl.SetControllerReference\<close> is declared outside the
  repository: it refuses an owner of another namespace and an owner type the scheme does
  not know, and otherwise adds the controller reference to the child's metadata, changing
  nothing else.
\<close>

definition SetControllerReference ::
  "App \<Rightarrow> ObjectMeta \<Rightarrow> (string \<times> string) option \<Rightarrow> error + ObjectMeta" where
  "SetControllerReference owner controlled scheme =
     (if ObjectMeta.Namespace (App.ObjectMeta owner) \<noteq> ''''
         \<and> ObjectMeta.Namespace controlled \<noteq> ObjectMeta.Namespace (App.ObjectMeta owner)
      then Inl (OwnershipLinkError ''cross-namespace owner references are disallowed'')
      else case scheme of
             None \<Rightarrow> Inl (OwnershipLinkError ''no kind is registered for the owner type'')
           | Some (version, kind) \<Rightarrow>
               Inr (controlled\<lparr>OwnerReferences := OwnerReferences controlled @
                      [\<lparr>APIVersion = version, Kind = kind,
                        OwnerReference.Name = ObjectMeta.Name (App.ObjectMeta owner),
                        OwnerReference.UID = ObjectMeta.UID (App.ObjectMeta owner),
                        Controller = True, BlockOwnerDeletion = True\<rparr>]\<rparr>))"

subsection \<open>Desired state (steps 2 and 5 of Reconcile)\<close>

definition desiredDeployment :: "App \<Rightarrow> Deployment" where
  "desiredDeployment app =
     \<lparr>Deployment.ObjectMeta =
        \<lparr>ObjectMeta.Name = ObjectMeta.Name (App.ObjectMeta app) @ ''-deployment'',
         ObjectMeta.Namespace = ObjectMeta.Namespace (App.ObjectMeta app),
         ObjectMeta.UID = '''',
         Labels = [''app'' \<mapsto> ObjectMeta.Name (App.ObjectMeta app),
                   ''controller'' \<mapsto> ''app-controller''],
         OwnerReferences = []\<rparr>,
      Deployment.Spec =
        \<lparr>DeploymentSpec.Replicas = Some (AppSpec.Replicas (App.Spec app)),
         DeploymentSpec.Selector =
           Some \<lparr>MatchLabels = [''app'' \<mapsto> ObjectMeta.Name (App.ObjectMeta app)]\<rparr>,
         Template =
           \<lparr>PodTemplateSpec.ObjectMeta =
              \<lparr>ObjectMeta.Name = '''', ObjectMeta.Namespace = '''', ObjectMeta.UID = '''',
               Labels = [''app'' \<mapsto> ObjectMeta.Name (App.ObjectMeta app)],
               OwnerReferences = []\<rparr>,
            PodTemplateSpec.Spec =
              \<lparr>Containers =
                 [\<lparr>Container.Name = ''app-container'',
                   Container.Image = AppSpec.Image (App.Spec app),
                   Container.Ports =
                     [\<lparr>ContainerPort = AppSpec.Port (App.Spec app)\<rparr>]\<rparr>]\<rparr>\<rparr>\<rparr>\<rparr>"

definition desiredService :: "App \<Rightarrow> Service" where
  "desiredService app =
     \<lparr>Service.ObjectMeta =
        \<lparr>ObjectMeta.Name = ObjectMeta.Name (App.ObjectMeta app) @ ''-service'',
         ObjectMeta.Namespace = ObjectMeta.Namespace (App.ObjectMeta app),
         ObjectMeta.UID = '''',
         Labels = [''app'' \<mapsto> ObjectMeta.Name (App.ObjectMeta app),
                   ''controller'' \<mapsto> ''app-controller''],
         OwnerReferences = []\<rparr>,
      Service.Spec =
        \<lparr>ServiceSpec.Selector = [''app'' \<mapsto> ObjectMeta.Name (App.ObjectMeta app)],
         ServiceSpec.Ports =
           [\<lparr>Protocol = ProtocolTCP,
             Port = AppSpec.Port (App.Spec app),
             TargetPort = FromInt (sint (AppSpec.Port (App.Spec app)))\<rparr>],
         ServiceSpec.Type = ServiceTypeClusterIP\<rparr>\<rparr>"

subsection \<open>Convergence of a child (steps 4 and 7 of Reconcile)\<close>

text \<open>
  The three branches in the order of the source: the get reports absence, so create; the
  get fails otherwise, so return the error; the child is found, so compare and, when the
  specs are unequal, assign the desired \<^verbatim>\<open>Spec\<close> to the found object and update it.
\<close>

definition checkDeployment :: "Deployment \<Rightarrow> Store \<Rightarrow> step \<times> Store" where
  "checkDeployment desired s =
     (case getDeployment (keyOf (Deployment.ObjectMeta desired)) s of
        Inl err \<Rightarrow>
          (if IsNotFound err then
             (case createDeployment desired s of
                (Some e, s') \<Rightarrow> (Abort e, s')
              | (None, s') \<Rightarrow> (Proceed, s'))
           else (Abort err, s))
      | Inr found \<Rightarrow>
          (case deploymentEqual (Deployment.Spec found) (Deployment.Spec desired) of
             None \<Rightarrow> (NilPanic, s)
           | Some False \<Rightarrow>
               (case updateDeployment (found\<lparr>Deployment.Spec := Deployment.Spec desired\<rparr>) s of
                  (Some e, s') \<Rightarrow> (Abort e, s')
                | (None, s') \<Rightarrow> (Proceed, s'))
           | Some True \<Rightarrow> (Proceed, s)))"

definition checkService :: "(string \<Rightarrow> int) \<Rightarrow> Service \<Rightarrow> Store \<Rightarrow> step \<times> Store" where
  "checkService atoi desired s =
     (case getService (keyOf (Service.ObjectMeta desired)) s of
        Inl err \<Rightarrow>
          (if IsNotFound err then
             (case createService desired s of
                (Some e, s') \<Rightarrow> (Abort e, s')
              | (None, s') \<Rightarrow> (Proceed, s'))
           else (Abort err, s))
      | Inr found \<Rightarrow>
          (if \<not> serviceEqual atoi (Service.Spec found) (Service.Spec desired) then
             (case updateService (found\<lparr>Service.Spec := Service.Spec desired\<rparr>) s of
                (Some e, s') \<Rightarrow> (Abort e, s')
              | (None, s') \<Rightarrow> (Proceed, s'))
           else (Proceed, s)))"

subsection \<open>Status (step 8 of Reconcile)\<close>

text \<open>
  The two nested loops that count the ready pods. The inner loop leaves a pod's
  conditions at the first one that is \<^verbatim>\<open>Ready\<close> and \<^verbatim>\<open>True\<close>, after adding one to
  the \<^verbatim>\<open>int32\<close> counter (which wraps around, as Go's \<^verbatim>\<open>++\<close> does).
\<close>

fun conditionsLoop :: "PodCondition list \<Rightarrow> int32 \<Rightarrow> int32" where
  "conditionsLoop [] readyPods = readyPods"
| "conditionsLoop (condition # rest) readyPods =
     (if PodCondition.Type condition = PodReady \<and> PodCondition.Status condition = ConditionTrue
      then readyPods + 1
      else conditionsLoop rest readyPods)"

fun podsLoop :: "Pod list \<Rightarrow> int32 \<Rightarrow> int32" where
  "podsLoop [] readyPods = readyPods"
| "podsLoop (pod # rest) readyPods =
     podsLoop rest (conditionsLoop (PodStatus.Conditions (Pod.Status pod)) readyPods)"

definition syncStatus :: "App \<Rightarrow> Store \<Rightarrow> step \<times> Store" where
  "syncStatus app s =
     (case listPods (ObjectMeta.Namespace (App.ObjectMeta app))
                    [(''app'', ObjectMeta.Name (App.ObjectMeta app))] s of
        Inl err \<Rightarrow> (Abort err, s)
      | Inr items \<Rightarrow>
          (let readyPods = podsLoop items 0 in
           if AppStatus.Replicas (App.Status app) \<noteq> readyPods then
             (case updateStatus
                     (app\<lparr>App.Status := (App.Status app)\<lparr>AppStatus.Replicas := readyPods\<rparr>\<rparr>) s of
                (Some e, s') \<Rightarrow> (Abort e, s')
              | (None, s') \<Rightarrow> (Proceed, s'))
           else (Proceed, s)))"

subsection \<open>Reconcile\<close>

text \<open>
  Steps 2 to 4 and steps 5 to 7 of \<^verbatim>\<open>Reconcile\<close>: build the desired child, set the
  App as its controller, converge it. Then \<^verbatim>\<open>Reconcile\<close> itself: steps 1, 2 to 4,
  5 to 7, 8 and 9 in sequence, each early return of the source a branch.
\<close>

definition reconcileDeployment :: "AppReconciler \<Rightarrow> App \<Rightarrow> Store \<Rightarrow> step \<times> Store" where
  "reconcileDeployment r app s =
     (case SetControllerReference app (Deployment.ObjectMeta (desiredDeployment app)) (Scheme r) of
        Inl err \<Rightarrow> (Abort err, s)
      | Inr owned \<Rightarrow>
          checkDeployment ((desiredDeployment app)\<lparr>Deployment.ObjectMeta := owned\<rparr>) s)"

definition reconcileService ::
  "(string \<Rightarrow> int) \<Rightarrow> AppReconciler \<Rightarrow> App \<Rightarrow> Store \<Rightarrow> step \<times> Store" where
  "reconcileService atoi r app s =
     (case SetControllerReference app (Service.ObjectMeta (desiredService app)) (Scheme r) of
        Inl err \<Rightarrow> (Abort err, s)
      | Inr owned \<Rightarrow>
          checkService atoi ((desiredService app)\<lparr>Service.ObjectMeta := owned\<rparr>) s)"

definition noResult :: Result where
  "noResult = \<lparr>Requeue = False, RequeueAfter = 0\<rparr>"

definition Reconcile ::
  "(string \<Rightarrow> int) \<Rightarrow> AppReconciler \<Rightarrow> Request \<Rightarrow> Store \<Rightarrow> outcome \<times> Store" where
  "Reconcile atoi r req s =
     (case getApp (NamespacedName req) s of
        Inl err \<Rightarrow>
          (if IsNotFound err then (Return noResult None, s)
           else (Return noResult (Some err), s))
      | Inr app \<Rightarrow>
      (case reconcileDeployment r app s of
        (Abort err, s1) \<Rightarrow> (Return noResult (Some err), s1)
      | (NilPanic, s1) \<Rightarrow> (Panic, s1)
      | (Proceed, s1) \<Rightarrow>
      (case reconcileService atoi r app s1 of
        (Abort err, s2) \<Rightarrow> (Return noResult (Some err), s2)
      | (NilPanic, s2) \<Rightarrow> (Panic, s2)
      | (Proceed, s2) \<Rightarrow>
      (case syncStatus app s2 of
        (Abort err, s3) \<Rightarrow> (Return noResult (Some err), s3)
      | (NilPanic, s3) \<Rightarrow> (Panic, s3)
      | (Proceed, s3) \<Rightarrow>
          (Return \<lparr>Requeue = False, RequeueAfter = 30 * Second\<rparr> None, s3)))))"

section \<open>The spec's reading of the status count\<close>

text \<open>
  The spec's words for the count (section 4.3): "a pod counts as ready iff it carries a
  Ready condition with value true". \<open>carriesReady\<close> follows these words; it is compared
  below with the loops of the source.
\<close>

definition carriesReady :: "Pod \<Rightarrow> bool" where
  "carriesReady pod =
     list_ex (\<lambda>c. PodCondition.Type c = PodReady \<and> PodCondition.Status c = ConditionTrue)
       (PodStatus.Conditions (Pod.Status pod))"

fun isStatusWrite :: "Write \<Rightarrow> bool" where
  "isStatusWrite (WriteUpdateStatus app) = True"
| "isStatusWrite w = False"

section \<open>Concrete instances\<close>

text \<open>
  The App of the spec's convergence scenario (section 8), its reconciler and request, and
  stores around it. No target port of these instances is a string, so \<open>noAtoi\<close> stands
  for \<^verbatim>\<open>strconv.Atoi\<close> there; \<open>noFault\<close> is a server that fails no call.
\<close>

definition noAtoi :: "string \<Rightarrow> int" where
  "noAtoi str = 0"

definition noFault :: "Call \<Rightarrow> string option" where
  "noFault c = None"

definition exApp :: App where
  "exApp =
     \<lparr>App.ObjectMeta =
        \<lparr>ObjectMeta.Name = ''web'', ObjectMeta.Namespace = ''default'',
         ObjectMeta.UID = ''uid-1'', Labels = Map.empty, OwnerReferences = []\<rparr>,
      App.Spec = \<lparr>AppSpec.Image = ''nginx:1.0'', AppSpec.Replicas = 3, AppSpec.Port = 8080\<rparr>,
      App.Status = \<lparr>AppStatus.Replicas = 1, AppStatus.Conditions = []\<rparr>\<rparr>"

definition exReconciler :: AppReconciler where
  "exReconciler = \<lparr>Scheme = Some (''webapp.example.com/v1'', ''App'')\<rparr>"

definition exRequest :: Request where
  "exRequest =
     \<lparr>NamespacedName = \<lparr>NamespacedName.Namespace = ''default'', NamespacedName.Name = ''web''\<rparr>\<rparr>"

definition exPod :: "string \<Rightarrow> PodCondition list \<Rightarrow> Pod" where
  "exPod name conditions =
     \<lparr>Pod.ObjectMeta =
        \<lparr>ObjectMeta.Name = name, ObjectMeta.Namespace = ''default'', ObjectMeta.UID = '''',
         Labels = [''app'' \<mapsto> ''web''], OwnerReferences = []\<rparr>,
      Pod.Status = \<lparr>PodStatus.Conditions = conditions\<rparr>\<rparr>"

definition readyTrue :: PodCondition where
  "readyTrue = \<lparr>PodCondition.Type = PodReady, PodCondition.Status = ConditionTrue\<rparr>"

definition readyFalse :: PodCondition where
  "readyFalse = \<lparr>PodCondition.Type = PodReady, PodCondition.Status = ''False''\<rparr>"

definition exPods :: "Pod list" where
  "exPods = [exPod ''web-1'' [readyTrue, readyTrue], exPod ''web-2'' [readyFalse],
             exPod ''web-3'' [readyFalse, readyTrue]]"

definition emptyStore :: Store where
  "emptyStore =
     \<lparr>apps = [], deployments = [], services = [], pods = [], writes = [], fault = noFault\<rparr>"

definition freshStore :: Store where
  "freshStore = emptyStore\<lparr>apps := [exApp], pods := exPods\<rparr>"

text \<open>
  A Deployment that drifted: five replicas instead of three, and a label \<open>team\<close> that
  another actor put on the pod template and on the Deployment itself.
\<close>

definition driftedDeployment :: Deployment where
  "driftedDeployment =
     \<lparr>Deployment.ObjectMeta =
        (Deployment.ObjectMeta (desiredDeployment exApp))
          \<lparr>Labels := [''app'' \<mapsto> ''web'', ''controller'' \<mapsto> ''app-controller'',
                      ''team'' \<mapsto> ''blue'']\<rparr>,
      Deployment.Spec =
        (Deployment.Spec (desiredDeployment exApp))
          \<lparr>DeploymentSpec.Replicas := Some 5,
           Template := (Template (Deployment.Spec (desiredDeployment exApp)))
             \<lparr>PodTemplateSpec.ObjectMeta :=
                (PodTemplateSpec.ObjectMeta (Template (Deployment.Spec (desiredDeployment exApp))))
                  \<lparr>Labels := [''app'' \<mapsto> ''web'', ''team'' \<mapsto> ''blue'']\<rparr>\<rparr>\<rparr>\<rparr>"

text \<open>
  A Service that drifted: type \<open>NodePort\<close>, and a selector entry \<open>tier\<close> that another
  actor added.
\<close>

definition driftedService :: Service where
  "driftedService =
     \<lparr>Service.ObjectMeta = Service.ObjectMeta (desiredService exApp),
      Service.Spec =
        (Service.Spec (desiredService exApp))
          \<lparr>ServiceSpec.Selector := [''app'' \<mapsto> ''web'', ''tier'' \<mapsto> ''front''],
           ServiceSpec.Type := ''NodePort''\<rparr>\<rparr>"

definition driftedStore :: Store where
  "driftedStore = freshStore\<lparr>deployments := [driftedDeployment], services := [driftedService]\<rparr>"

text \<open>A server that fails the creation of a Service, and nothing else.\<close>

definition serviceDown :: "Call \<Rightarrow> string option" where
  "serviceDown c = (if c = CreateService then Some ''service unavailable'' else None)"

text \<open>The store that one pass over \<open>freshStore\<close> leaves.\<close>

definition convergedStore :: Store where
  "convergedStore = snd (Reconcile noAtoi exReconciler exRequest freshStore)"

text \<open>
  The stores of a pass in which the creation of the Service fails: after the Deployment
  step, and at the end.
\<close>

definition deploymentOnlyStore :: Store where
  "deploymentOnlyStore =
     snd (reconcileDeployment exReconciler exApp (freshStore\<lparr>fault := serviceDown\<rparr>))"

definition serviceFailedStore :: Store where
  "serviceFailedStore =
     snd (Reconcile noAtoi exReconciler exRequest (freshStore\<lparr>fault := serviceDown\<rparr>))"

text \<open>As many ready pods as the \<^verbatim>\<open>int32\<close> counter cannot hold.\<close>

definition manyPods :: "Pod list" where
  "manyPods = replicate (2 ^ 31) (exPod ''web-1'' [readyTrue])"

text \<open>
  An App whose stored ready count is 0, and a store that lists \<open>2 ^ 32\<close> ready pods
  for it.
\<close>

definition idleApp :: App where
  "idleApp = exApp\<lparr>App.Status := \<lparr>AppStatus.Replicas = 0, AppStatus.Conditions = []\<rparr>\<rparr>"

definition fullPods :: "Pod list" where
  "fullPods = replicate (2 ^ 32) (exPod ''web-1'' [readyTrue])"

definition fullStore :: Store where
  "fullStore = emptyStore\<lparr>apps := [idleApp], pods := fullPods\<rparr>"

section \<open>Lemmas on the store and on the steps\<close>

lemma find_append_new: "find P xs = None \<Longrightarrow> P d \<Longrightarrow> find P (xs @ [d]) = Some d"
  by (induction xs) (auto split: if_splits)

lemma find_replaceFirst: "find P xs \<noteq> None \<Longrightarrow> P y \<Longrightarrow> find P (replaceFirst P y xs) = Some y"
  by (induction xs) auto

lemma find_Some_holds: "find P xs = Some x \<Longrightarrow> P x"
  by (induction xs) (auto split: if_splits)

lemma named_keyOf: "named (keyOf m) m"
  by (simp add: named_def keyOf_def)

lemma named_eq: "named key m \<Longrightarrow> keyOf m = key"
  by (simp add: named_def keyOf_def)

lemma deploymentEqual_refl: "DeploymentSpec.Replicas a \<noteq> None \<Longrightarrow> deploymentEqual a a = Some True"
  by (auto simp: deploymentEqual_def Let_def split: option.splits)

lemma serviceEqual_refl: "serviceEqual atoi a a"
  by (simp add: serviceEqual_def)

lemma checkDeployment_Proceed_cases:
  assumes "checkDeployment d s = (Proceed, s')"
  obtains
    (created) "fault s GetDeployment = None" "fault s CreateDeployment = None"
      "find (\<lambda>x. named (keyOf (Deployment.ObjectMeta d)) (Deployment.ObjectMeta x)) (deployments s) = None"
      "s' = s\<lparr>writes := writes s @ [WriteCreateDeployment d], deployments := deployments s @ [d]\<rparr>"
  | (updated) found where "fault s GetDeployment = None" "fault s UpdateDeployment = None"
      "find (\<lambda>x. named (keyOf (Deployment.ObjectMeta d)) (Deployment.ObjectMeta x)) (deployments s) = Some found"
      "deploymentEqual (Deployment.Spec found) (Deployment.Spec d) = Some False"
      "s' = s\<lparr>writes := writes s @ [WriteUpdateDeployment (found\<lparr>Deployment.Spec := Deployment.Spec d\<rparr>)],
              deployments := replaceFirst (\<lambda>x. named (keyOf (Deployment.ObjectMeta d)) (Deployment.ObjectMeta x))
                 (found\<lparr>Deployment.Spec := Deployment.Spec d\<rparr>) (deployments s)\<rparr>"
  | (kept) found where "fault s GetDeployment = None"
      "find (\<lambda>x. named (keyOf (Deployment.ObjectMeta d)) (Deployment.ObjectMeta x)) (deployments s) = Some found"
      "deploymentEqual (Deployment.Spec found) (Deployment.Spec d) = Some True"
      "s' = s"
proof (cases "getDeployment (keyOf (Deployment.ObjectMeta d)) s")
  case (Inl err)
  with assms show ?thesis
    by (intro created)
       (auto simp: checkDeployment_def getDeployment_def createDeployment_def Let_def
          IsNotFound_def split: option.splits if_splits)
next
  case (Inr found)
  then have f: "fault s GetDeployment = None"
    "find (\<lambda>x. named (keyOf (Deployment.ObjectMeta d)) (Deployment.ObjectMeta x)) (deployments s) = Some found"
    by (auto simp: getDeployment_def split: option.splits)
  from find_Some_holds[OF f(2)] have k: "keyOf (Deployment.ObjectMeta found) = keyOf (Deployment.ObjectMeta d)"
    by (rule named_eq)
  show ?thesis
  proof (cases "deploymentEqual (Deployment.Spec found) (Deployment.Spec d)")
    case None
    with assms Inr show ?thesis by (simp add: checkDeployment_def)
  next
    case (Some eq)
    show ?thesis
    proof (cases eq)
      case True
      with assms Inr Some f show ?thesis
        by (intro kept[of found]) (simp_all add: checkDeployment_def)
    next
      case False
      with assms Inr Some f k show ?thesis
        by (intro updated[of found])
           (auto simp: checkDeployment_def updateDeployment_def Let_def
              split: option.splits if_splits)
    qed
  qed
qed

lemma checkService_Proceed_cases:
  assumes "checkService atoi d s = (Proceed, s')"
  obtains
    (created) "fault s GetService = None" "fault s CreateService = None"
      "find (\<lambda>x. named (keyOf (Service.ObjectMeta d)) (Service.ObjectMeta x)) (services s) = None"
      "s' = s\<lparr>writes := writes s @ [WriteCreateService d], services := services s @ [d]\<rparr>"
  | (updated) found where "fault s GetService = None" "fault s UpdateService = None"
      "find (\<lambda>x. named (keyOf (Service.ObjectMeta d)) (Service.ObjectMeta x)) (services s) = Some found"
      "\<not> serviceEqual atoi (Service.Spec found) (Service.Spec d)"
      "s' = s\<lparr>writes := writes s @ [WriteUpdateService (found\<lparr>Service.Spec := Service.Spec d\<rparr>)],
              services := replaceFirst (\<lambda>x. named (keyOf (Service.ObjectMeta d)) (Service.ObjectMeta x))
                 (found\<lparr>Service.Spec := Service.Spec d\<rparr>) (services s)\<rparr>"
  | (kept) found where "fault s GetService = None"
      "find (\<lambda>x. named (keyOf (Service.ObjectMeta d)) (Service.ObjectMeta x)) (services s) = Some found"
      "serviceEqual atoi (Service.Spec found) (Service.Spec d)"
      "s' = s"
proof (cases "getService (keyOf (Service.ObjectMeta d)) s")
  case (Inl err)
  with assms show ?thesis
    by (intro created)
       (auto simp: checkService_def getService_def createService_def Let_def
          IsNotFound_def split: option.splits if_splits)
next
  case (Inr found)
  then have f: "fault s GetService = None"
    "find (\<lambda>x. named (keyOf (Service.ObjectMeta d)) (Service.ObjectMeta x)) (services s) = Some found"
    by (auto simp: getService_def split: option.splits)
  from find_Some_holds[OF f(2)] have k: "keyOf (Service.ObjectMeta found) = keyOf (Service.ObjectMeta d)"
    by (rule named_eq)
  show ?thesis
  proof (cases "serviceEqual atoi (Service.Spec found) (Service.Spec d)")
    case True
    with assms Inr f show ?thesis
      by (intro kept[of found]) (simp_all add: checkService_def)
  next
    case False
    with assms Inr f k show ?thesis
      by (intro updated[of found])
         (auto simp: checkService_def updateService_def Let_def
            split: option.splits if_splits)
  qed
qed

lemma conditionsLoop_count:
  "conditionsLoop cs n =
     n + (if list_ex (\<lambda>c. PodCondition.Type c = PodReady \<and> PodCondition.Status c = ConditionTrue) cs
          then 1 else 0)"
  by (induction cs) auto

lemma podsLoop_count: "podsLoop items n = n + word_of_nat (length (filter carriesReady items))"
  by (induction items arbitrary: n) (auto simp: conditionsLoop_count carriesReady_def)

lemma checkDeployment_frame:
  "checkDeployment d s = (st, s') \<Longrightarrow>
     apps s' = apps s \<and> services s' = services s \<and> pods s' = pods s \<and> fault s' = fault s"
  by (auto simp: checkDeployment_def getDeployment_def createDeployment_def updateDeployment_def
        Let_def split: option.splits sum.splits if_splits bool.splits prod.splits)

lemma checkService_frame:
  "checkService atoi d s = (st, s') \<Longrightarrow>
     apps s' = apps s \<and> deployments s' = deployments s \<and> pods s' = pods s \<and> fault s' = fault s"
  by (auto simp: checkService_def getService_def createService_def updateService_def
        Let_def split: option.splits sum.splits if_splits bool.splits prod.splits)

lemma reconcileDeployment_frame:
  "reconcileDeployment r app s = (st, s') \<Longrightarrow>
     apps s' = apps s \<and> services s' = services s \<and> pods s' = pods s \<and> fault s' = fault s"
  by (auto simp: reconcileDeployment_def dest: checkDeployment_frame split: sum.splits)

lemma reconcileService_frame:
  "reconcileService atoi r app s = (st, s') \<Longrightarrow>
     apps s' = apps s \<and> deployments s' = deployments s \<and> pods s' = pods s \<and> fault s' = fault s"
  by (auto simp: reconcileService_def dest: checkService_frame split: sum.splits)

lemma syncStatus_frame:
  "syncStatus app s = (st, s') \<Longrightarrow>
     deployments s' = deployments s \<and> services s' = services s \<and> pods s' = pods s \<and> fault s' = fault s"
  by (auto simp: syncStatus_def listPods_def updateStatus_def
        Let_def split: option.splits sum.splits if_splits prod.splits)

lemma checkDeployment_stable:
  assumes "find (\<lambda>x. named (keyOf (Deployment.ObjectMeta d)) (Deployment.ObjectMeta x)) (deployments s) = Some found"
    and "deploymentEqual (Deployment.Spec found) (Deployment.Spec d) = Some True"
  shows "checkDeployment d s =
           (case fault s GetDeployment of
              Some msg \<Rightarrow> (Abort (TransientStoreError msg), s) | None \<Rightarrow> (Proceed, s))"
  using assms
  by (simp add: checkDeployment_def getDeployment_def IsNotFound_def split: option.splits)

lemma checkService_stable:
  assumes "find (\<lambda>x. named (keyOf (Service.ObjectMeta d)) (Service.ObjectMeta x)) (services s) = Some found"
    and "serviceEqual atoi (Service.Spec found) (Service.Spec d)"
  shows "checkService atoi d s =
           (case fault s GetService of
              Some msg \<Rightarrow> (Abort (TransientStoreError msg), s) | None \<Rightarrow> (Proceed, s))"
  using assms
  by (simp add: checkService_def getService_def IsNotFound_def split: option.splits)

lemma checkDeployment_converged:
  assumes "checkDeployment d s = (Proceed, s')"
    and "DeploymentSpec.Replicas (Deployment.Spec d) \<noteq> None"
  shows "\<exists>found. find (\<lambda>x. named (keyOf (Deployment.ObjectMeta d)) (Deployment.ObjectMeta x)) (deployments s') = Some found
       \<and> deploymentEqual (Deployment.Spec found) (Deployment.Spec d) = Some True"
  using assms(1)
proof (cases rule: checkDeployment_Proceed_cases)
  case created
  then show ?thesis using assms(2)
    by (simp add: find_append_new named_keyOf deploymentEqual_refl)
next
  case (updated found)
  from find_Some_holds[OF updated(3)]
  have "named (keyOf (Deployment.ObjectMeta d)) (Deployment.ObjectMeta (found\<lparr>Deployment.Spec := Deployment.Spec d\<rparr>))"
    by simp
  with updated show ?thesis using assms(2)
    by (simp add: find_replaceFirst deploymentEqual_refl)
next
  case (kept found)
  then show ?thesis by simp
qed

lemma checkService_converged:
  assumes "checkService atoi d s = (Proceed, s')"
  shows "\<exists>found. find (\<lambda>x. named (keyOf (Service.ObjectMeta d)) (Service.ObjectMeta x)) (services s') = Some found
       \<and> serviceEqual atoi (Service.Spec found) (Service.Spec d)"
  using assms
proof (cases rule: checkService_Proceed_cases)
  case created
  then show ?thesis
    by (simp add: find_append_new named_keyOf serviceEqual_refl)
next
  case (updated found)
  from find_Some_holds[OF updated(3)]
  have "named (keyOf (Service.ObjectMeta d)) (Service.ObjectMeta (found\<lparr>Service.Spec := Service.Spec d\<rparr>))"
    by simp
  with updated show ?thesis
    by (simp add: find_replaceFirst serviceEqual_refl)
next
  case (kept found)
  then show ?thesis by simp
qed

lemma syncStatus_Proceed_cases:
  assumes "syncStatus app s = (Proceed, s')"
  obtains
    (unchanged) items where
      "listPods (ObjectMeta.Namespace (App.ObjectMeta app)) [(''app'', ObjectMeta.Name (App.ObjectMeta app))] s = Inr items"
      "AppStatus.Replicas (App.Status app) = podsLoop items 0" "s' = s"
  | (written) items stored where
      "listPods (ObjectMeta.Namespace (App.ObjectMeta app)) [(''app'', ObjectMeta.Name (App.ObjectMeta app))] s = Inr items"
      "AppStatus.Replicas (App.Status app) \<noteq> podsLoop items 0"
      "find (\<lambda>x. named (keyOf (App.ObjectMeta app)) (App.ObjectMeta x)) (apps s) = Some stored"
      "s' = s\<lparr>writes := writes s @
                 [WriteUpdateStatus (app\<lparr>App.Status := (App.Status app)\<lparr>AppStatus.Replicas := podsLoop items 0\<rparr>\<rparr>)],
              apps := replaceFirst (\<lambda>x. named (keyOf (App.ObjectMeta app)) (App.ObjectMeta x))
                 (stored\<lparr>App.Status := (App.Status app)\<lparr>AppStatus.Replicas := podsLoop items 0\<rparr>\<rparr>) (apps s)\<rparr>"
proof (cases "listPods (ObjectMeta.Namespace (App.ObjectMeta app)) [(''app'', ObjectMeta.Name (App.ObjectMeta app))] s")
  case (Inl err)
  with assms show ?thesis by (simp add: syncStatus_def)
next
  case (Inr items)
  show ?thesis
  proof (cases "AppStatus.Replicas (App.Status app) = podsLoop items 0")
    case True
    with assms Inr show ?thesis
      by (intro unchanged[of items]) (simp_all add: syncStatus_def)
  next
    case False
    with assms Inr show ?thesis
      by (auto simp: syncStatus_def updateStatus_def Let_def
            split: option.splits if_splits intro: written[of items])
  qed
qed

lemma Reconcile_success_cases:
  assumes "Reconcile atoi r req s = (Return res None, s')"
  obtains
    (absent) "getApp (NamespacedName req) s = Inl AbsenceError" "s' = s" "res = noResult"
  | (synced) app s1 s2 where
      "getApp (NamespacedName req) s = Inr app"
      "reconcileDeployment r app s = (Proceed, s1)"
      "reconcileService atoi r app s1 = (Proceed, s2)"
      "syncStatus app s2 = (Proceed, s')"
      "res = \<lparr>Requeue = False, RequeueAfter = 30 * Second\<rparr>"
proof (cases "getApp (NamespacedName req) s")
  case (Inl err)
  with assms show ?thesis
    by (intro absent) (auto simp: Reconcile_def IsNotFound_def split: if_splits)
next
  case (Inr app)
  with assms show ?thesis
    by (auto simp: Reconcile_def split: prod.splits step.splits intro: synced)
qed

lemma desiredDeployment_status [simp]:
  "desiredDeployment (app\<lparr>App.Status := st\<rparr>) = desiredDeployment app"
  by (simp add: desiredDeployment_def)

lemma desiredService_status [simp]:
  "desiredService (app\<lparr>App.Status := st\<rparr>) = desiredService app"
  by (simp add: desiredService_def)

lemma SetControllerReference_status [simp]:
  "SetControllerReference (app\<lparr>App.Status := st\<rparr>) m sch = SetControllerReference app m sch"
  by (simp add: SetControllerReference_def split: option.splits)

lemma SetControllerReference_meta:
  "SetControllerReference owner m sch = Inr m' \<Longrightarrow>
     ObjectMeta.Name m' = ObjectMeta.Name m \<and> ObjectMeta.Namespace m' = ObjectMeta.Namespace m
     \<and> Labels m' = Labels m \<and> keyOf m' = keyOf m"
  by (auto simp: SetControllerReference_def keyOf_def split: if_splits option.splits)

lemma desiredDeployment_replicas:
  "DeploymentSpec.Replicas (Deployment.Spec (desiredDeployment app)) \<noteq> None"
  by (simp add: desiredDeployment_def)

text \<open>After a pass that converged the Deployment, a pass over the same children writes nothing.\<close>

lemma reconcileDeployment_again:
  assumes "reconcileDeployment r app s = (Proceed, s1)"
    and "deployments t = deployments s1"
  shows "reconcileDeployment r (app\<lparr>App.Status := st\<rparr>) t =
           (case fault t GetDeployment of
              Some msg \<Rightarrow> (Abort (TransientStoreError msg), t) | None \<Rightarrow> (Proceed, t))"
proof -
  from assms(1) obtain owned where
    o: "SetControllerReference app (Deployment.ObjectMeta (desiredDeployment app)) (Scheme r) = Inr owned"
    and c: "checkDeployment ((desiredDeployment app)\<lparr>Deployment.ObjectMeta := owned\<rparr>) s = (Proceed, s1)"
    by (auto simp: reconcileDeployment_def split: sum.splits)
  from checkDeployment_converged[OF c] obtain found where
    "find (\<lambda>x. named (keyOf (Deployment.ObjectMeta ((desiredDeployment app)\<lparr>Deployment.ObjectMeta := owned\<rparr>)))
                 (Deployment.ObjectMeta x)) (deployments s1) = Some found"
    "deploymentEqual (Deployment.Spec found)
       (Deployment.Spec ((desiredDeployment app)\<lparr>Deployment.ObjectMeta := owned\<rparr>)) = Some True"
    by (auto simp: desiredDeployment_replicas)
  with assms(2) have
    "checkDeployment ((desiredDeployment app)\<lparr>Deployment.ObjectMeta := owned\<rparr>) t =
       (case fault t GetDeployment of
          Some msg \<Rightarrow> (Abort (TransientStoreError msg), t) | None \<Rightarrow> (Proceed, t))"
    by (intro checkDeployment_stable[of _ _ found]) simp_all
  with o show ?thesis by (simp add: reconcileDeployment_def)
qed

lemma reconcileService_again:
  assumes "reconcileService atoi r app s = (Proceed, s1)"
    and "services t = services s1"
  shows "reconcileService atoi r (app\<lparr>App.Status := st\<rparr>) t =
           (case fault t GetService of
              Some msg \<Rightarrow> (Abort (TransientStoreError msg), t) | None \<Rightarrow> (Proceed, t))"
proof -
  from assms(1) obtain owned where
    o: "SetControllerReference app (Service.ObjectMeta (desiredService app)) (Scheme r) = Inr owned"
    and c: "checkService atoi ((desiredService app)\<lparr>Service.ObjectMeta := owned\<rparr>) s = (Proceed, s1)"
    by (auto simp: reconcileService_def split: sum.splits)
  from checkService_converged[OF c] obtain found where
    "find (\<lambda>x. named (keyOf (Service.ObjectMeta ((desiredService app)\<lparr>Service.ObjectMeta := owned\<rparr>)))
                 (Service.ObjectMeta x)) (services s1) = Some found"
    "serviceEqual atoi (Service.Spec found)
       (Service.Spec ((desiredService app)\<lparr>Service.ObjectMeta := owned\<rparr>))"
    by auto
  with assms(2) have
    "checkService atoi ((desiredService app)\<lparr>Service.ObjectMeta := owned\<rparr>) t =
       (case fault t GetService of
          Some msg \<Rightarrow> (Abort (TransientStoreError msg), t) | None \<Rightarrow> (Proceed, t))"
    by (intro checkService_stable[of _ _ found]) simp_all
  with o show ?thesis by (simp add: reconcileService_def)
qed

lemma syncStatus_again:
  assumes "listPods (ObjectMeta.Namespace (App.ObjectMeta app)) [(''app'', ObjectMeta.Name (App.ObjectMeta app))] s = Inr items"
    and "pods t = pods s"
    and "AppStatus.Replicas st = podsLoop items 0"
  shows "syncStatus (app\<lparr>App.Status := st\<rparr>) t =
           (case fault t ListPods of
              Some msg \<Rightarrow> (Abort (TransientStoreError msg), t) | None \<Rightarrow> (Proceed, t))"
  using assms
  by (auto simp: syncStatus_def listPods_def split: option.splits)

lemma Reconcile_second_pass:
  assumes a: "find (\<lambda>a. named (NamespacedName req) (App.ObjectMeta a)) (apps t) = Some (app\<lparr>App.Status := st\<rparr>)"
    and d: "reconcileDeployment r app s = (Proceed, s1)" "deployments t = deployments s1"
    and v: "reconcileService atoi r app s1' = (Proceed, s2)" "services t = services s2"
    and p: "listPods (ObjectMeta.Namespace (App.ObjectMeta app))
              [(''app'', ObjectMeta.Name (App.ObjectMeta app))] s2' = Inr items"
           "pods t = pods s2'" "AppStatus.Replicas st = podsLoop items 0"
  shows "snd (Reconcile atoi r req t) = t"
    and "fault t GetApp = None \<Longrightarrow> fault t GetDeployment = None \<Longrightarrow> fault t GetService = None
         \<Longrightarrow> fault t ListPods = None
         \<Longrightarrow> Reconcile atoi r req t = (Return \<lparr>Requeue = False, RequeueAfter = 30 * Second\<rparr> None, t)"
proof -
  note steps = reconcileDeployment_again[OF d, where st = st]
    reconcileService_again[OF v, where st = st] syncStatus_again[OF p]
  show "snd (Reconcile atoi r req t) = t"
    using a by (simp add: Reconcile_def getApp_def steps split: option.splits)
  show "Reconcile atoi r req t = (Return \<lparr>Requeue = False, RequeueAfter = 30 * Second\<rparr> None, t)"
    if "fault t GetApp = None" "fault t GetDeployment = None" "fault t GetService = None"
       "fault t ListPods = None"
    using a that by (simp add: Reconcile_def getApp_def steps)
qed

lemmas store_defs = getApp_def getDeployment_def getService_def createDeployment_def
  updateDeployment_def createService_def updateService_def listPods_def updateStatus_def
  named_def keyOf_def IsNotFound_def Let_def

lemmas reconcile_defs = Reconcile_def reconcileDeployment_def reconcileService_def
  checkDeployment_def checkService_def syncStatus_def SetControllerReference_def
  desiredDeployment_def desiredService_def deploymentEqual_def serviceEqual_def
  IntValue_def FromInt_def noResult_def

lemmas instance_defs = noAtoi_def noFault_def exApp_def exReconciler_def exRequest_def
  exPod_def readyTrue_def readyFalse_def exPods_def emptyStore_def freshStore_def
  driftedDeployment_def driftedService_def driftedStore_def serviceDown_def
  PodReady_def ConditionTrue_def ProtocolTCP_def ServiceTypeClusterIP_def

lemma first_pass:
  "Reconcile noAtoi exReconciler exRequest freshStore
     = (Return \<lparr>Requeue = False, RequeueAfter = 30 * Second\<rparr> None, convergedStore)"
  by (simp add: convergedStore_def reconcile_defs store_defs instance_defs)

lemma checkDeployment_status_writes:
  "checkDeployment d s = (st, s') \<Longrightarrow>
     filter isStatusWrite (writes s') = filter isStatusWrite (writes s)"
  by (auto simp: checkDeployment_def getDeployment_def createDeployment_def updateDeployment_def
        Let_def split: option.splits sum.splits if_splits bool.splits prod.splits)

lemma checkService_status_writes:
  "checkService atoi d s = (st, s') \<Longrightarrow>
     filter isStatusWrite (writes s') = filter isStatusWrite (writes s)"
  by (auto simp: checkService_def getService_def createService_def updateService_def
        Let_def split: option.splits sum.splits if_splits bool.splits prod.splits)

lemma reconcileDeployment_status_writes:
  "reconcileDeployment r app s = (st, s') \<Longrightarrow>
     filter isStatusWrite (writes s') = filter isStatusWrite (writes s)"
  by (auto simp: reconcileDeployment_def dest: checkDeployment_status_writes split: sum.splits)

lemma reconcileService_status_writes:
  "reconcileService atoi r app s = (st, s') \<Longrightarrow>
     filter isStatusWrite (writes s') = filter isStatusWrite (writes s)"
  by (auto simp: reconcileService_def dest: checkService_status_writes split: sum.splits)

lemma reconcileDeployment_converged:
  assumes "reconcileDeployment r app s = (Proceed, s')"
  shows "\<exists>found.
      find (\<lambda>x. named (keyOf (Deployment.ObjectMeta (desiredDeployment app))) (Deployment.ObjectMeta x))
        (deployments s') = Some found
    \<and> deploymentEqual (Deployment.Spec found) (Deployment.Spec (desiredDeployment app)) = Some True"
proof -
  from assms obtain owned where
    o: "SetControllerReference app (Deployment.ObjectMeta (desiredDeployment app)) (Scheme r) = Inr owned"
    and c: "checkDeployment ((desiredDeployment app)\<lparr>Deployment.ObjectMeta := owned\<rparr>) s = (Proceed, s')"
    by (auto simp: reconcileDeployment_def split: sum.splits)
  from checkDeployment_converged[OF c] SetControllerReference_meta[OF o]
  show ?thesis by (simp add: desiredDeployment_replicas)
qed

lemma reconcileService_converged:
  assumes "reconcileService atoi r app s = (Proceed, s')"
  shows "\<exists>found.
      find (\<lambda>x. named (keyOf (Service.ObjectMeta (desiredService app))) (Service.ObjectMeta x))
        (services s') = Some found
    \<and> serviceEqual atoi (Service.Spec found) (Service.Spec (desiredService app))"
proof -
  from assms obtain owned where
    o: "SetControllerReference app (Service.ObjectMeta (desiredService app)) (Scheme r) = Inr owned"
    and c: "checkService atoi ((desiredService app)\<lparr>Service.ObjectMeta := owned\<rparr>) s = (Proceed, s')"
    by (auto simp: reconcileService_def split: sum.splits)
  from checkService_converged[OF c] SetControllerReference_meta[OF o]
  show ?thesis by simp
qed

lemma length_one: "length xs = Suc 0 \<Longrightarrow> \<exists>x. xs = [x]"
  by (cases xs) auto

lemma deploymentEqual_desired:
  assumes "deploymentEqual a (Deployment.Spec (desiredDeployment app)) = Some True"
  shows "\<exists>c p. DeploymentSpec.Replicas a = Some (AppSpec.Replicas (App.Spec app))
      \<and> Containers (PodTemplateSpec.Spec (Template a)) = [c]
      \<and> Container.Image c = AppSpec.Image (App.Spec app)
      \<and> Container.Ports c = [p]
      \<and> ContainerPort p = AppSpec.Port (App.Spec app)"
proof -
  from assms have r: "DeploymentSpec.Replicas a = Some (AppSpec.Replicas (App.Spec app))"
    and l: "length (Containers (PodTemplateSpec.Spec (Template a))) = Suc 0"
    by (auto simp: deploymentEqual_def desiredDeployment_def Let_def split: option.splits if_splits)
  from length_one[OF l] obtain c where c: "Containers (PodTemplateSpec.Spec (Template a)) = [c]" ..
  from assms c have i: "Container.Image c = AppSpec.Image (App.Spec app)"
    and lp: "length (Container.Ports c) = Suc 0"
    by (auto simp: deploymentEqual_def desiredDeployment_def Let_def split: option.splits if_splits)
  from length_one[OF lp] obtain p where p: "Container.Ports c = [p]" ..
  from assms c p have "ContainerPort p = AppSpec.Port (App.Spec app)"
    by (auto simp: deploymentEqual_def desiredDeployment_def Let_def split: option.splits if_splits)
  with r c i p show ?thesis by simp
qed

lemma IntValue_FromInt: "IntValue atoi (FromInt (sint (w :: int32))) = sint w"
  by (simp add: IntValue_def FromInt_def)

lemma serviceEqual_desired:
  assumes "serviceEqual atoi a (Service.Spec (desiredService app))"
  shows "\<exists>p. ServiceSpec.Ports a = [p]
      \<and> Port p = AppSpec.Port (App.Spec app)
      \<and> IntValue atoi (TargetPort p) = sint (AppSpec.Port (App.Spec app))
      \<and> Protocol p = ProtocolTCP"
proof -
  from assms have l: "length (ServiceSpec.Ports a) = Suc 0"
    by (auto simp: serviceEqual_def desiredService_def split: if_splits)
  from length_one[OF l] obtain p where p: "ServiceSpec.Ports a = [p]" ..
  from assms p show ?thesis
    by (auto simp: serviceEqual_def desiredService_def IntValue_FromInt split: if_splits)
qed

lemma sint_ready_count:
  "n < 2 ^ 31 \<Longrightarrow> sint (word_of_nat n :: int32) = int n"
  by (simp add: signed_of_nat signed_take_bit_int_eq_self)

section \<open>The claims\<close>

text \<open>
  C1, as stated: when the Convergence Engine finds an existing child whose spec is unequal
  to the desired state under the partial-equality policy, the update it issues overwrites
  only the comparable subset of the existing resource's specification; every field outside
  that subset (extra labels, additional ports, other spec fields set by other actors) is
  left unchanged. It fails for the fields of the specification: the first write of a pass
  over \<open>driftedStore\<close> is the update of the drifted Deployment, the replica count being
  the only compared field that differs, and the label \<open>team\<close> of its pod template, which
  the policy never compares, is gone from it.
\<close>

theorem update_reverts_other_spec_fields:
  "deploymentEqual (Deployment.Spec driftedDeployment) (Deployment.Spec (desiredDeployment exApp))
     = Some False
   \<and> hd (writes (snd (Reconcile noAtoi exReconciler exRequest driftedStore)))
       = WriteUpdateDeployment
           (driftedDeployment\<lparr>Deployment.Spec := Deployment.Spec (desiredDeployment exApp)\<rparr>)
   \<and> Labels (PodTemplateSpec.ObjectMeta (Template (Deployment.Spec driftedDeployment))) ''team''
       = Some ''blue''
   \<and> Labels (PodTemplateSpec.ObjectMeta (Template (Deployment.Spec
         (driftedDeployment\<lparr>Deployment.Spec := Deployment.Spec (desiredDeployment exApp)\<rparr>))))
        ''team'' = None"
  by (simp add: reconcile_defs store_defs instance_defs)

text \<open>
  C1, amended: when the Convergence Engine finds an existing child whose spec is unequal
  to the desired state under the partial-equality policy, the update it issues is the
  existing resource with its whole specification replaced by the desired one; what lies
  outside the specification (the metadata: name, namespace, labels, owner references) is
  left unchanged. When the update succeeds, this object is what the store then holds.
\<close>

theorem update_replaces_spec:
  "(getDeployment (keyOf (Deployment.ObjectMeta desired)) s = Inr found
      \<and> deploymentEqual (Deployment.Spec found) (Deployment.Spec desired) = Some False
    \<longrightarrow> writes (snd (checkDeployment desired s))
          = writes s @ [WriteUpdateDeployment (found\<lparr>Deployment.Spec := Deployment.Spec desired\<rparr>)]
        \<and> (fault s UpdateDeployment = None \<longrightarrow>
             getDeployment (keyOf (Deployment.ObjectMeta desired)) (snd (checkDeployment desired s))
               = Inr (found\<lparr>Deployment.Spec := Deployment.Spec desired\<rparr>)))
   \<and> (getService (keyOf (Service.ObjectMeta desired')) s = Inr found'
      \<and> \<not> serviceEqual atoi (Service.Spec found') (Service.Spec desired')
    \<longrightarrow> writes (snd (checkService atoi desired' s))
          = writes s @ [WriteUpdateService (found'\<lparr>Service.Spec := Service.Spec desired'\<rparr>)]
        \<and> (fault s UpdateService = None \<longrightarrow>
             getService (keyOf (Service.ObjectMeta desired')) (snd (checkService atoi desired' s))
               = Inr (found'\<lparr>Service.Spec := Service.Spec desired'\<rparr>)))"
proof (intro conjI impI; elim conjE)
  assume g: "getDeployment (keyOf (Deployment.ObjectMeta desired)) s = Inr found"
    and ne: "deploymentEqual (Deployment.Spec found) (Deployment.Spec desired) = Some False"
  from g have f: "fault s GetDeployment = None"
    "find (\<lambda>x. named (keyOf (Deployment.ObjectMeta desired)) (Deployment.ObjectMeta x)) (deployments s) = Some found"
    by (auto simp: getDeployment_def split: option.splits)
  from find_Some_holds[OF f(2)] have n: "named (keyOf (Deployment.ObjectMeta desired)) (Deployment.ObjectMeta found)" .
  then have k: "keyOf (Deployment.ObjectMeta found) = keyOf (Deployment.ObjectMeta desired)"
    by (rule named_eq)
  show "writes (snd (checkDeployment desired s))
          = writes s @ [WriteUpdateDeployment (found\<lparr>Deployment.Spec := Deployment.Spec desired\<rparr>)]"
    using g ne by (simp add: checkDeployment_def updateDeployment_def Let_def split: option.splits)
  show "getDeployment (keyOf (Deployment.ObjectMeta desired)) (snd (checkDeployment desired s))
               = Inr (found\<lparr>Deployment.Spec := Deployment.Spec desired\<rparr>)"
    if "fault s UpdateDeployment = None"
    using g ne that f k n
    by (simp add: checkDeployment_def updateDeployment_def Let_def getDeployment_def
          find_replaceFirst)
next
  assume g: "getService (keyOf (Service.ObjectMeta desired')) s = Inr found'"
    and ne: "\<not> serviceEqual atoi (Service.Spec found') (Service.Spec desired')"
  from g have f: "fault s GetService = None"
    "find (\<lambda>x. named (keyOf (Service.ObjectMeta desired')) (Service.ObjectMeta x)) (services s) = Some found'"
    by (auto simp: getService_def split: option.splits)
  from find_Some_holds[OF f(2)] have n: "named (keyOf (Service.ObjectMeta desired')) (Service.ObjectMeta found')" .
  then have k: "keyOf (Service.ObjectMeta found') = keyOf (Service.ObjectMeta desired')"
    by (rule named_eq)
  show "writes (snd (checkService atoi desired' s))
          = writes s @ [WriteUpdateService (found'\<lparr>Service.Spec := Service.Spec desired'\<rparr>)]"
    using g ne by (simp add: checkService_def updateService_def Let_def split: option.splits)
  show "getService (keyOf (Service.ObjectMeta desired')) (snd (checkService atoi desired' s))
               = Inr (found'\<lparr>Service.Spec := Service.Spec desired'\<rparr>)"
    if "fault s UpdateService = None"
    using g ne that f k n
    by (simp add: checkService_def updateService_def Let_def getService_def
          find_replaceFirst)
qed

theorem update_replaces_spec_witness:
  "getDeployment (keyOf (Deployment.ObjectMeta (desiredDeployment exApp))) driftedStore
     = Inr driftedDeployment
   \<and> deploymentEqual (Deployment.Spec driftedDeployment) (Deployment.Spec (desiredDeployment exApp))
       = Some False
   \<and> writes (snd (checkDeployment (desiredDeployment exApp) driftedStore))
       = [WriteUpdateDeployment
            (driftedDeployment\<lparr>Deployment.Spec := Deployment.Spec (desiredDeployment exApp)\<rparr>)]
   \<and> getDeployment (keyOf (Deployment.ObjectMeta (desiredDeployment exApp)))
         (snd (checkDeployment (desiredDeployment exApp) driftedStore))
       = Inr (driftedDeployment\<lparr>Deployment.Spec := Deployment.Spec (desiredDeployment exApp)\<rparr>)
   \<and> Labels (Deployment.ObjectMeta
         (driftedDeployment\<lparr>Deployment.Spec := Deployment.Spec (desiredDeployment exApp)\<rparr>)) ''team''
       = Some ''blue''
   \<and> getService (keyOf (Service.ObjectMeta (desiredService exApp))) driftedStore
       = Inr driftedService
   \<and> \<not> serviceEqual noAtoi (Service.Spec driftedService) (Service.Spec (desiredService exApp))
   \<and> writes (snd (checkService noAtoi (desiredService exApp) driftedStore))
       = [WriteUpdateService
            (driftedService\<lparr>Service.Spec := Service.Spec (desiredService exApp)\<rparr>)]
   \<and> getService (keyOf (Service.ObjectMeta (desiredService exApp)))
         (snd (checkService noAtoi (desiredService exApp) driftedStore))
       = Inr (driftedService\<lparr>Service.Spec := Service.Spec (desiredService exApp)\<rparr>)"
proof -
  have gd: "getDeployment (keyOf (Deployment.ObjectMeta (desiredDeployment exApp))) driftedStore
     = Inr driftedDeployment"
    by (simp add: store_defs instance_defs desiredDeployment_def)
  have nd: "deploymentEqual (Deployment.Spec driftedDeployment) (Deployment.Spec (desiredDeployment exApp))
       = Some False"
    by (simp add: deploymentEqual_def desiredDeployment_def instance_defs)
  have gv: "getService (keyOf (Service.ObjectMeta (desiredService exApp))) driftedStore
       = Inr driftedService"
    by (simp add: store_defs instance_defs desiredService_def)
  have nv: "\<not> serviceEqual noAtoi (Service.Spec driftedService) (Service.Spec (desiredService exApp))"
    by (simp add: serviceEqual_def desiredService_def instance_defs)
  have w: "writes driftedStore = []" "fault driftedStore UpdateService = None"
    "fault driftedStore UpdateDeployment = None"
    by (simp_all add: instance_defs)
  have l: "Labels (Deployment.ObjectMeta
         (driftedDeployment\<lparr>Deployment.Spec := Deployment.Spec (desiredDeployment exApp)\<rparr>)) ''team''
       = Some ''blue''"
    by (simp add: instance_defs)
  from update_replaces_spec[of "desiredDeployment exApp" driftedStore driftedDeployment
      "desiredService exApp" driftedService noAtoi] gd nd gv nv w l
  show ?thesis by simp
qed

text \<open>
  C2. For every valid App spec and every store state reached by one successful reconcile
  pass with no external interference in between, running a second reconcile pass
  immediately afterwards issues zero write operations (no create, no update, no status
  update). Whatever calls the server fails in the second pass, its write log is the one
  the first pass left; and when the server answers as in the first pass, the second pass
  returns the same result and leaves the store as it found it.
\<close>

theorem reconcile_idempotent:
  assumes "Reconcile atoi r req s = (Return res None, s')"
  shows "writes (snd (Reconcile atoi r req (s'\<lparr>fault := f\<rparr>))) = writes s'
         \<and> Reconcile atoi r req s' = (Return res None, s')"
  using assms
proof (cases rule: Reconcile_success_cases)
  case absent
  then show ?thesis
    by (auto simp: Reconcile_def getApp_def IsNotFound_def split: option.splits)
next
  case (synced app s1 s2)
  from synced(1) have g: "fault s GetApp = None"
    "find (\<lambda>a. named (NamespacedName req) (App.ObjectMeta a)) (apps s) = Some app"
    by (auto simp: getApp_def split: option.splits)
  from find_Some_holds[OF g(2)] have k: "keyOf (App.ObjectMeta app) = NamespacedName req"
    by (rule named_eq)
  note f1 = reconcileDeployment_frame[OF synced(2)]
  note f2 = reconcileService_frame[OF synced(3)]
  note f3 = syncStatus_frame[OF synced(4)]
  from synced(2) have gd: "fault s GetDeployment = None"
    by (auto simp: reconcileDeployment_def checkDeployment_def getDeployment_def IsNotFound_def
          split: sum.splits option.splits if_splits)
  from synced(3) have gv: "fault s1 GetService = None"
    by (auto simp: reconcileService_def checkService_def getService_def IsNotFound_def
          split: sum.splits option.splits if_splits)
  from synced(4) show ?thesis
  proof (cases rule: syncStatus_Proceed_cases)
    case (unchanged items)
    have a: "find (\<lambda>a. named (NamespacedName req) (App.ObjectMeta a)) (apps (s'\<lparr>fault := f\<rparr>))
               = Some (app\<lparr>App.Status := App.Status app\<rparr>)"
      and a': "find (\<lambda>a. named (NamespacedName req) (App.ObjectMeta a)) (apps s')
               = Some (app\<lparr>App.Status := App.Status app\<rparr>)"
      using g f1 f2 unchanged by simp_all
    have lp: "fault s2 ListPods = None"
      using unchanged(1) by (auto simp: listPods_def split: option.splits)
    have "snd (Reconcile atoi r req (s'\<lparr>fault := f\<rparr>)) = s'\<lparr>fault := f\<rparr>"
      by (rule Reconcile_second_pass(1)[OF a synced(2) _ synced(3) _ unchanged(1)])
         (use f2 f3 unchanged in simp_all)
    moreover have "Reconcile atoi r req s' = (Return res None, s')"
      unfolding synced(5)
      by (rule Reconcile_second_pass(2)[OF a' synced(2) _ synced(3) _ unchanged(1)])
         (use f1 f2 f3 g gd gv lp unchanged in simp_all)
    ultimately show ?thesis by simp
  next
    case (written items stored)
    let ?st = "(App.Status app)\<lparr>AppStatus.Replicas := podsLoop items 0\<rparr>"
    from written(3) k f1 f2 g have "stored = app" by simp
    with written k have apps': "apps s' = replaceFirst (\<lambda>x. named (NamespacedName req) (App.ObjectMeta x))
        (app\<lparr>App.Status := ?st\<rparr>) (apps s2)" by simp
    have "find (\<lambda>a. named (NamespacedName req) (App.ObjectMeta a)) (apps s') = Some (app\<lparr>App.Status := ?st\<rparr>)"
      unfolding apps' using g f1 f2 find_Some_holds[OF g(2)]
      by (intro find_replaceFirst) simp_all
    then have a: "find (\<lambda>a. named (NamespacedName req) (App.ObjectMeta a)) (apps (s'\<lparr>fault := f\<rparr>))
               = Some (app\<lparr>App.Status := ?st\<rparr>)"
      and a': "find (\<lambda>a. named (NamespacedName req) (App.ObjectMeta a)) (apps s')
               = Some (app\<lparr>App.Status := ?st\<rparr>)"
      by simp_all
    have lp: "fault s2 ListPods = None"
      using written(1) by (auto simp: listPods_def split: option.splits)
    have "snd (Reconcile atoi r req (s'\<lparr>fault := f\<rparr>)) = s'\<lparr>fault := f\<rparr>"
      by (rule Reconcile_second_pass(1)[OF a synced(2) _ synced(3) _ written(1)])
         (use f2 f3 in simp_all)
    moreover have "Reconcile atoi r req s' = (Return res None, s')"
      unfolding synced(5)
      by (rule Reconcile_second_pass(2)[OF a' synced(2) _ synced(3) _ written(1)])
         (use f1 f2 f3 g gd gv lp in simp_all)
    ultimately show ?thesis by simp
  qed
qed

theorem reconcile_idempotent_witness:
  "Reconcile noAtoi exReconciler exRequest freshStore
     = (Return \<lparr>Requeue = False, RequeueAfter = 30 * Second\<rparr> None, convergedStore)
   \<and> length (writes convergedStore) = 3
   \<and> writes (snd (Reconcile noAtoi exReconciler exRequest (convergedStore\<lparr>fault := noFault\<rparr>)))
       = writes convergedStore
   \<and> Reconcile noAtoi exReconciler exRequest convergedStore
       = (Return \<lparr>Requeue = False, RequeueAfter = 30 * Second\<rparr> None, convergedStore)"
proof -
  have l: "length (writes convergedStore) = 3"
    by (simp add: convergedStore_def reconcile_defs store_defs instance_defs)
  from reconcile_idempotent[OF first_pass, of noFault] first_pass l show ?thesis by simp
qed

text \<open>
  C3. For every pair of Deployment specs \<open>a\<close> and \<open>b\<close>, the Deployment partial-equality
  predicate holds iff the replica counts match, the container counts match, and, when at
  least one container exists, the first container's image, the first container's
  port-list length, and the first port's value all match; no other field influences the
  result. A replica count is a pointer in the source: the counts match when both are set
  and equal, and the comparison panics exactly when one of them is nil, which again only
  the replica counts decide.
\<close>

theorem deploymentEqual_iff:
  "(deploymentEqual a b = Some True \<longleftrightarrow>
      (\<exists>n. DeploymentSpec.Replicas a = Some n \<and> DeploymentSpec.Replicas b = Some n)
    \<and> length (Containers (PodTemplateSpec.Spec (Template a)))
        = length (Containers (PodTemplateSpec.Spec (Template b)))
    \<and> (Containers (PodTemplateSpec.Spec (Template a)) \<noteq> [] \<longrightarrow>
         Container.Image (Containers (PodTemplateSpec.Spec (Template a)) ! 0)
           = Container.Image (Containers (PodTemplateSpec.Spec (Template b)) ! 0)
       \<and> length (Container.Ports (Containers (PodTemplateSpec.Spec (Template a)) ! 0))
           = length (Container.Ports (Containers (PodTemplateSpec.Spec (Template b)) ! 0))
       \<and> (Container.Ports (Containers (PodTemplateSpec.Spec (Template a)) ! 0) \<noteq> [] \<longrightarrow>
            ContainerPort (Container.Ports (Containers (PodTemplateSpec.Spec (Template a)) ! 0) ! 0)
              = ContainerPort
                  (Container.Ports (Containers (PodTemplateSpec.Spec (Template b)) ! 0) ! 0))))
   \<and> (deploymentEqual a b = None \<longleftrightarrow>
        DeploymentSpec.Replicas a = None \<or> DeploymentSpec.Replicas b = None)"
  by (auto simp: deploymentEqual_def Let_def split: option.splits)

theorem deploymentEqual_iff_witness:
  "Containers (PodTemplateSpec.Spec (Template (Deployment.Spec (desiredDeployment exApp)))) \<noteq> []
   \<and> Container.Ports
        (Containers (PodTemplateSpec.Spec (Template (Deployment.Spec (desiredDeployment exApp)))) ! 0)
       \<noteq> []
   \<and> deploymentEqual (Deployment.Spec (desiredDeployment exApp))
        (Deployment.Spec (desiredDeployment exApp)) = Some True
   \<and> deploymentEqual (Deployment.Spec driftedDeployment)
        (Deployment.Spec (desiredDeployment exApp)) \<noteq> Some True"
  using deploymentEqual_iff[of "Deployment.Spec (desiredDeployment exApp)"
      "Deployment.Spec (desiredDeployment exApp)"]
    deploymentEqual_iff[of "Deployment.Spec driftedDeployment"
      "Deployment.Spec (desiredDeployment exApp)"]
  by (simp add: desiredDeployment_def driftedDeployment_def exApp_def)

text \<open>
  C4. For every pair of Service specs \<open>a\<close> and \<open>b\<close>, the Service partial-equality
  predicate holds iff the service types match, the port-list lengths match, and, when
  both lists have at least one port, the first port's port number, target-port numeric
  value, and protocol all match; no other field influences the result.
\<close>

theorem serviceEqual_iff:
  "serviceEqual atoi a b \<longleftrightarrow>
     ServiceSpec.Type a = ServiceSpec.Type b
   \<and> length (ServiceSpec.Ports a) = length (ServiceSpec.Ports b)
   \<and> (ServiceSpec.Ports a \<noteq> [] \<and> ServiceSpec.Ports b \<noteq> [] \<longrightarrow>
        Port (ServiceSpec.Ports a ! 0) = Port (ServiceSpec.Ports b ! 0)
      \<and> IntValue atoi (TargetPort (ServiceSpec.Ports a ! 0))
          = IntValue atoi (TargetPort (ServiceSpec.Ports b ! 0))
      \<and> Protocol (ServiceSpec.Ports a ! 0) = Protocol (ServiceSpec.Ports b ! 0))"
  by (auto simp: serviceEqual_def)

theorem serviceEqual_iff_witness:
  "ServiceSpec.Ports (Service.Spec (desiredService exApp)) \<noteq> []
   \<and> serviceEqual noAtoi (Service.Spec (desiredService exApp)) (Service.Spec (desiredService exApp))
   \<and> \<not> serviceEqual noAtoi
         ((Service.Spec (desiredService exApp))\<lparr>ServiceSpec.Ports :=
             [\<lparr>Protocol = ''UDP'', Port = 8080, TargetPort = FromInt 8080\<rparr>]\<rparr>)
         (Service.Spec (desiredService exApp))"
  using serviceEqual_iff[of noAtoi "Service.Spec (desiredService exApp)"
      "Service.Spec (desiredService exApp)"]
    serviceEqual_iff[of noAtoi
      "(Service.Spec (desiredService exApp))\<lparr>ServiceSpec.Ports :=
             [\<lparr>Protocol = ''UDP'', Port = 8080, TargetPort = FromInt 8080\<rparr>]\<rparr>"
      "Service.Spec (desiredService exApp)"]
  by (simp add: desiredService_def ProtocolTCP_def)

text \<open>
  C5, as stated: for every list of pods and every currently stored
  \<^verbatim>\<open>App.status.replicas\<close> value, the Status Aggregator computes the count of pods that
  carry a "Ready" condition with value true, and it issues a status write iff that count
  differs from the stored value. The counter of step 8 is an \<^verbatim>\<open>int32\<close> and wraps
  around: with \<open>2 ^ 32\<close> ready pods listed it is back at 0, so for a stored value of 0
  the count differs from the stored value and no status write is issued.
\<close>

theorem status_write_missed_on_wrap:
  "listPods (ObjectMeta.Namespace (App.ObjectMeta idleApp))
      [(''app'', ObjectMeta.Name (App.ObjectMeta idleApp))] fullStore = Inr fullPods
   \<and> length (filter carriesReady fullPods) = 2 ^ 32
   \<and> sint (AppStatus.Replicas (App.Status idleApp)) = 0
   \<and> podsLoop fullPods 0 = 0
   \<and> writes (snd (syncStatus idleApp fullStore)) = writes fullStore"
proof -
  have r: "carriesReady (exPod ''web-1'' [readyTrue])"
    by (simp add: carriesReady_def instance_defs)
  have n: "length (filter carriesReady fullPods) = 2 ^ 32"
    by (simp add: fullPods_def r)
  have c: "podsLoop fullPods 0 = 0"
    by (simp add: podsLoop_count n)
  have l: "listPods (ObjectMeta.Namespace (App.ObjectMeta idleApp))
      [(''app'', ObjectMeta.Name (App.ObjectMeta idleApp))] fullStore = Inr fullPods"
    by (simp add: listPods_def fullPods_def fullStore_def idleApp_def exPod_def exApp_def
          emptyStore_def noFault_def)
  have z: "AppStatus.Replicas (App.Status idleApp) = 0"
    by (simp add: idleApp_def)
  have w: "writes (snd (syncStatus idleApp fullStore)) = writes fullStore"
    by (simp add: syncStatus_def l c z)
  show ?thesis using l n c z w by simp
qed

text \<open>
  C5, amended: for every list of fewer than \<open>2 ^ 31\<close> pods and every currently stored
  \<^verbatim>\<open>App.status.replicas\<close> value, the Status Aggregator computes the count of pods that
  carry a "Ready" condition with value true, and it issues a status write iff that count
  differs from the stored value; when it writes, the written value equals the computed
  count, and when the count equals the stored value no status write occurs.
\<close>

theorem status_write_suppression:
  assumes "listPods (ObjectMeta.Namespace (App.ObjectMeta app))
             [(''app'', ObjectMeta.Name (App.ObjectMeta app))] s = Inr items"
    and "length items < 2 ^ 31"
  shows "sint (podsLoop items 0) = int (length (filter carriesReady items))
       \<and> writes (snd (syncStatus app s)) =
           writes s @
           (if sint (AppStatus.Replicas (App.Status app)) \<noteq> int (length (filter carriesReady items))
            then [WriteUpdateStatus
                    (app\<lparr>App.Status := (App.Status app)
                       \<lparr>AppStatus.Replicas := podsLoop items 0\<rparr>\<rparr>)]
            else [])"
proof -
  let ?n = "length (filter carriesReady items)"
  have "?n \<le> length items" by simp
  with assms(2) have lt: "?n < 2 ^ 31" by linarith
  have c: "sint (podsLoop items 0) = int ?n"
    by (simp add: podsLoop_count sint_ready_count[OF lt])
  have e: "AppStatus.Replicas (App.Status app) \<noteq> podsLoop items 0
             \<longleftrightarrow> sint (AppStatus.Replicas (App.Status app)) \<noteq> int ?n"
    unfolding c[symmetric] by (simp add: word_eq_iff_signed[where ?'a = int])
  have "writes (snd (syncStatus app s)) =
           writes s @
           (if AppStatus.Replicas (App.Status app) \<noteq> podsLoop items 0
            then [WriteUpdateStatus
                    (app\<lparr>App.Status := (App.Status app)
                       \<lparr>AppStatus.Replicas := podsLoop items 0\<rparr>\<rparr>)]
            else [])"
    using assms(1)
    by (auto simp: syncStatus_def updateStatus_def Let_def split: option.splits)
  with c e show ?thesis by simp
qed

theorem status_write_suppression_witness:
  "listPods (ObjectMeta.Namespace (App.ObjectMeta exApp))
      [(''app'', ObjectMeta.Name (App.ObjectMeta exApp))] freshStore = Inr exPods
   \<and> length exPods < 2 ^ 31
   \<and> AppStatus.Replicas (App.Status exApp) = 1
   \<and> podsLoop exPods 0 = 2
   \<and> writes (snd (syncStatus exApp freshStore))
       = [WriteUpdateStatus (exApp\<lparr>App.Status := (App.Status exApp)\<lparr>AppStatus.Replicas := 2\<rparr>\<rparr>)]
   \<and> writes (snd (syncStatus (exApp\<lparr>App.Status := (App.Status exApp)\<lparr>AppStatus.Replicas := 2\<rparr>\<rparr>)
                       freshStore)) = []"
proof -
  have h: "listPods (ObjectMeta.Namespace (App.ObjectMeta exApp))
      [(''app'', ObjectMeta.Name (App.ObjectMeta exApp))] freshStore = Inr exPods"
    by (simp add: store_defs instance_defs)
  have h': "listPods (ObjectMeta.Namespace (App.ObjectMeta (exApp\<lparr>App.Status := (App.Status exApp)\<lparr>AppStatus.Replicas := 2\<rparr>\<rparr>)))
      [(''app'', ObjectMeta.Name (App.ObjectMeta (exApp\<lparr>App.Status := (App.Status exApp)\<lparr>AppStatus.Replicas := 2\<rparr>\<rparr>)))] freshStore = Inr exPods"
    by (simp add: store_defs instance_defs)
  have n: "length (filter carriesReady exPods) = 2"
    by (simp add: carriesReady_def instance_defs)
  have l: "length exPods < 2 ^ 31"
    by (simp add: exPods_def)
  have p: "podsLoop exPods 0 = 2"
    by (simp add: podsLoop_count n)
  have w: "writes freshStore = []" "AppStatus.Replicas (App.Status exApp) = 1"
    by (simp_all add: instance_defs)
  from status_write_suppression[OF h l] status_write_suppression[OF h' l] h n l p w
  show ?thesis by simp
qed

text \<open>
  C6. For every reconcile invocation in which the fetch of the App reports absence, the
  invocation returns success (no error), performs no write operation on the store, and
  does not schedule its own delayed follow-up pass: the error is nil, the store with its
  write log is returned as it was, and the result is the zero \<^verbatim>\<open>ctrl.Result\<close>.
\<close>

theorem reconcile_app_absent:
  assumes "getApp (NamespacedName req) s = Inl AbsenceError"
  shows "Reconcile atoi r req s = (Return \<lparr>Requeue = False, RequeueAfter = 0\<rparr> None, s)"
  using assms by (simp add: Reconcile_def IsNotFound_def noResult_def)

theorem reconcile_app_absent_witness:
  "getApp (NamespacedName exRequest) emptyStore = Inl AbsenceError
   \<and> Reconcile noAtoi exReconciler exRequest emptyStore
       = (Return \<lparr>Requeue = False, RequeueAfter = 0\<rparr> None, emptyStore)"
proof -
  have h: "getApp (NamespacedName exRequest) emptyStore = Inl AbsenceError"
    by (simp add: getApp_def emptyStore_def noFault_def)
  from reconcile_app_absent[OF h] h show ?thesis by simp
qed

text \<open>
  C7, as stated: every reconcile invocation that reaches Done, by whatever path,
  schedules the next invocation after a fixed delay of 30 time units. It fails on the
  path of an absent App, which ends the invocation with success and the zero result.
\<close>

theorem done_without_requeue:
  "Reconcile noAtoi exReconciler exRequest emptyStore = (Return noResult None, emptyStore)
   \<and> RequeueAfter noResult \<noteq> 30 * Second"
  by (simp add: Reconcile_def getApp_def emptyStore_def noFault_def IsNotFound_def noResult_def
        Second_def)

text \<open>
  C7, amended: an invocation that returns success schedules the next invocation after
  30 seconds (\<open>30 * Second\<close>, that is 30000000000 nanoseconds, within the range of
  \<^verbatim>\<open>time.Duration\<close>) when it found the App, and schedules nothing when the fetch of the
  App reported absence.
\<close>

theorem reconcile_requeue:
  assumes "Reconcile atoi r req s = (Return res None, s')"
  shows "RequeueAfter res
           = (if getApp (NamespacedName req) s = Inl AbsenceError then 0 else 30 * Second)
         \<and> unat (30 * Second) = 30 * 1000000000"
  using assms
  by (cases rule: Reconcile_success_cases) (simp_all add: noResult_def Second_def)

theorem reconcile_requeue_witness:
  "Reconcile noAtoi exReconciler exRequest freshStore
     = (Return \<lparr>Requeue = False, RequeueAfter = 30000000000\<rparr> None, convergedStore)
   \<and> getApp (NamespacedName exRequest) freshStore \<noteq> Inl AbsenceError"
proof -
  have g: "getApp (NamespacedName exRequest) freshStore \<noteq> Inl AbsenceError"
    by (simp add: store_defs instance_defs)
  from reconcile_requeue[OF first_pass] first_pass g show ?thesis by (simp add: Second_def)
qed

text \<open>
  C8. For every invocation in which the Deployment converges successfully and the
  subsequent Service write then fails with a transient error, the invocation reports
  failure, the Deployment write performed earlier in the same invocation persists (is not
  rolled back), and \<^verbatim>\<open>App.status\<close> is not updated during that invocation. The Service
  step aborts after issuing a write; the invocation returns that error, the Deployments
  are those the Deployment step left (with the converged one among them), the Apps are
  those of the start, and the log has no new status write.
\<close>

theorem service_write_failure_isolated:
  assumes "getApp (NamespacedName req) s = Inr app"
    and "reconcileDeployment r app s = (Proceed, s1)"
    and "reconcileService atoi r app s1 = (Abort err, s2)"
    and "writes s2 \<noteq> writes s1"
  shows "Reconcile atoi r req s = (Return noResult (Some err), s2)
       \<and> deployments s2 = deployments s1
       \<and> (\<exists>found.
            find (\<lambda>x. named (keyOf (Deployment.ObjectMeta (desiredDeployment app)))
                        (Deployment.ObjectMeta x)) (deployments s2) = Some found
          \<and> deploymentEqual (Deployment.Spec found) (Deployment.Spec (desiredDeployment app))
              = Some True)
       \<and> apps s2 = apps s
       \<and> filter isStatusWrite (writes s2) = filter isStatusWrite (writes s)"
proof -
  from assms(1-3) have "Reconcile atoi r req s = (Return noResult (Some err), s2)"
    by (simp add: Reconcile_def)
  moreover note reconcileService_frame[OF assms(3)] reconcileDeployment_frame[OF assms(2)]
    reconcileDeployment_converged[OF assms(2)]
    reconcileService_status_writes[OF assms(3)] reconcileDeployment_status_writes[OF assms(2)]
  ultimately show ?thesis by simp
qed

theorem service_write_failure_isolated_witness:
  "Reconcile noAtoi exReconciler exRequest (freshStore\<lparr>fault := serviceDown\<rparr>)
     = (Return noResult (Some (TransientStoreError ''service unavailable'')), serviceFailedStore)
   \<and> length (deployments serviceFailedStore) = 1
   \<and> length (writes serviceFailedStore) = 2
   \<and> apps serviceFailedStore = [exApp]
   \<and> filter isStatusWrite (writes serviceFailedStore) = []"
proof -
  let ?s = "freshStore\<lparr>fault := serviceDown\<rparr>"
  have g: "getApp (NamespacedName exRequest) ?s = Inr exApp"
    by (simp add: store_defs instance_defs)
  have d: "reconcileDeployment exReconciler exApp ?s = (Proceed, deploymentOnlyStore)"
    by (simp add: deploymentOnlyStore_def reconcile_defs store_defs instance_defs)
  have v: "reconcileService noAtoi exReconciler exApp deploymentOnlyStore
             = (Abort (TransientStoreError ''service unavailable''), serviceFailedStore)"
    by (simp add: deploymentOnlyStore_def serviceFailedStore_def reconcile_defs store_defs
          instance_defs)
  have w: "writes serviceFailedStore \<noteq> writes deploymentOnlyStore"
    by (simp add: deploymentOnlyStore_def serviceFailedStore_def reconcile_defs store_defs
          instance_defs)
  have l: "length (deployments deploymentOnlyStore) = 1" "length (writes serviceFailedStore) = 2"
    "apps freshStore = [exApp]" "writes freshStore = []"
    by (simp_all add: deploymentOnlyStore_def serviceFailedStore_def reconcile_defs store_defs
          instance_defs)
  from service_write_failure_isolated[OF g d v w] l show ?thesis by simp
qed

text \<open>
  C9. For every App with name \<open>N\<close> and spec \<open>{image, replicas, port}\<close>, the desired
  child resources built by a reconcile pass are named exactly \<open>N-deployment\<close> and
  \<open>N-service\<close>, both carry the label \<open>app=N\<close>, and after one successful pass the stored
  Deployment has replica count = replicas, a container with that image exposing
  containerPort = port, and the stored Service has one port entry with
  port = target-port = port and protocol TCP (the target port by its numeric value).
\<close>

theorem children_converged:
  assumes "getApp (NamespacedName req) s = Inr app"
    and "Reconcile atoi r req s = (Return res None, s')"
  shows "ObjectMeta.Name (Deployment.ObjectMeta (desiredDeployment app))
           = ObjectMeta.Name (App.ObjectMeta app) @ ''-deployment''
       \<and> ObjectMeta.Name (Service.ObjectMeta (desiredService app))
           = ObjectMeta.Name (App.ObjectMeta app) @ ''-service''
       \<and> Labels (Deployment.ObjectMeta (desiredDeployment app)) ''app''
           = Some (ObjectMeta.Name (App.ObjectMeta app))
       \<and> Labels (Service.ObjectMeta (desiredService app)) ''app''
           = Some (ObjectMeta.Name (App.ObjectMeta app))
       \<and> (\<exists>d c p.
             find (\<lambda>x. named \<lparr>NamespacedName.Namespace = ObjectMeta.Namespace (App.ObjectMeta app),
                               NamespacedName.Name = ObjectMeta.Name (App.ObjectMeta app) @ ''-deployment''\<rparr>
                          (Deployment.ObjectMeta x)) (deployments s') = Some d
           \<and> DeploymentSpec.Replicas (Deployment.Spec d) = Some (AppSpec.Replicas (App.Spec app))
           \<and> Containers (PodTemplateSpec.Spec (Template (Deployment.Spec d))) = [c]
           \<and> Container.Image c = AppSpec.Image (App.Spec app)
           \<and> Container.Ports c = [p]
           \<and> ContainerPort p = AppSpec.Port (App.Spec app))
       \<and> (\<exists>v p.
             find (\<lambda>x. named \<lparr>NamespacedName.Namespace = ObjectMeta.Namespace (App.ObjectMeta app),
                               NamespacedName.Name = ObjectMeta.Name (App.ObjectMeta app) @ ''-service''\<rparr>
                          (Service.ObjectMeta x)) (services s') = Some v
           \<and> ServiceSpec.Ports (Service.Spec v) = [p]
           \<and> Port p = AppSpec.Port (App.Spec app)
           \<and> IntValue atoi (TargetPort p) = sint (AppSpec.Port (App.Spec app))
           \<and> Protocol p = ProtocolTCP)"
  using assms(2)
proof (cases rule: Reconcile_success_cases)
  case absent
  with assms(1) show ?thesis by simp
next
  case (synced app' s1 s2)
  with assms(1) have [simp]: "app' = app" by simp
  note f2 = reconcileService_frame[OF synced(3)]
  note f3 = syncStatus_frame[OF synced(4)]
  from reconcileDeployment_converged[OF synced(2)] obtain d where
    d: "find (\<lambda>x. named (keyOf (Deployment.ObjectMeta (desiredDeployment app))) (Deployment.ObjectMeta x))
          (deployments s1) = Some d"
       "deploymentEqual (Deployment.Spec d) (Deployment.Spec (desiredDeployment app)) = Some True"
    by auto
  from reconcileService_converged[OF synced(3)] obtain v where
    v: "find (\<lambda>x. named (keyOf (Service.ObjectMeta (desiredService app))) (Service.ObjectMeta x))
          (services s2) = Some v"
       "serviceEqual atoi (Service.Spec v) (Service.Spec (desiredService app))"
    by auto
  have names: "ObjectMeta.Name (Deployment.ObjectMeta (desiredDeployment app))
           = ObjectMeta.Name (App.ObjectMeta app) @ ''-deployment''
       \<and> ObjectMeta.Name (Service.ObjectMeta (desiredService app))
           = ObjectMeta.Name (App.ObjectMeta app) @ ''-service''
       \<and> Labels (Deployment.ObjectMeta (desiredDeployment app)) ''app''
           = Some (ObjectMeta.Name (App.ObjectMeta app))
       \<and> Labels (Service.ObjectMeta (desiredService app)) ''app''
           = Some (ObjectMeta.Name (App.ObjectMeta app))"
    by (simp add: desiredDeployment_def desiredService_def)
  have dk: "keyOf (Deployment.ObjectMeta (desiredDeployment app))
      = \<lparr>NamespacedName.Namespace = ObjectMeta.Namespace (App.ObjectMeta app),
         NamespacedName.Name = ObjectMeta.Name (App.ObjectMeta app) @ ''-deployment''\<rparr>"
    by (simp add: desiredDeployment_def keyOf_def)
  have vk: "keyOf (Service.ObjectMeta (desiredService app))
      = \<lparr>NamespacedName.Namespace = ObjectMeta.Namespace (App.ObjectMeta app),
         NamespacedName.Name = ObjectMeta.Name (App.ObjectMeta app) @ ''-service''\<rparr>"
    by (simp add: desiredService_def keyOf_def)
  from d(2) obtain c p where
    dd: "DeploymentSpec.Replicas (Deployment.Spec d) = Some (AppSpec.Replicas (App.Spec app))"
      "Containers (PodTemplateSpec.Spec (Template (Deployment.Spec d))) = [c]"
      "Container.Image c = AppSpec.Image (App.Spec app)"
      "Container.Ports c = [p]"
      "ContainerPort p = AppSpec.Port (App.Spec app)"
    using deploymentEqual_desired by blast
  from v(2) obtain q where
    vv: "ServiceSpec.Ports (Service.Spec v) = [q]"
      "Port q = AppSpec.Port (App.Spec app)"
      "IntValue atoi (TargetPort q) = sint (AppSpec.Port (App.Spec app))"
      "Protocol q = ProtocolTCP"
    using serviceEqual_desired by blast
  have "\<exists>d c p.
             find (\<lambda>x. named \<lparr>NamespacedName.Namespace = ObjectMeta.Namespace (App.ObjectMeta app),
                               NamespacedName.Name = ObjectMeta.Name (App.ObjectMeta app) @ ''-deployment''\<rparr>
                          (Deployment.ObjectMeta x)) (deployments s') = Some d
           \<and> DeploymentSpec.Replicas (Deployment.Spec d) = Some (AppSpec.Replicas (App.Spec app))
           \<and> Containers (PodTemplateSpec.Spec (Template (Deployment.Spec d))) = [c]
           \<and> Container.Image c = AppSpec.Image (App.Spec app)
           \<and> Container.Ports c = [p]
           \<and> ContainerPort p = AppSpec.Port (App.Spec app)"
    using d(1) dd f2 f3 unfolding dk by auto
  moreover have "\<exists>v p.
             find (\<lambda>x. named \<lparr>NamespacedName.Namespace = ObjectMeta.Namespace (App.ObjectMeta app),
                               NamespacedName.Name = ObjectMeta.Name (App.ObjectMeta app) @ ''-service''\<rparr>
                          (Service.ObjectMeta x)) (services s') = Some v
           \<and> ServiceSpec.Ports (Service.Spec v) = [p]
           \<and> Port p = AppSpec.Port (App.Spec app)
           \<and> IntValue atoi (TargetPort p) = sint (AppSpec.Port (App.Spec app))
           \<and> Protocol p = ProtocolTCP"
    using v(1) vv f3 unfolding vk by auto
  ultimately show ?thesis using names by blast
qed

theorem children_converged_witness:
  "getApp (NamespacedName exRequest) freshStore = Inr exApp
   \<and> Reconcile noAtoi exReconciler exRequest freshStore
       = (Return \<lparr>Requeue = False, RequeueAfter = 30 * Second\<rparr> None, convergedStore)
   \<and> ObjectMeta.Name (Deployment.ObjectMeta (desiredDeployment exApp)) = ''web-deployment''
   \<and> ObjectMeta.Name (Service.ObjectMeta (desiredService exApp)) = ''web-service''
   \<and> (\<exists>d c p.
         find (\<lambda>x. named \<lparr>NamespacedName.Namespace = ''default'',
                           NamespacedName.Name = ''web-deployment''\<rparr>
                      (Deployment.ObjectMeta x)) (deployments convergedStore) = Some d
       \<and> DeploymentSpec.Replicas (Deployment.Spec d) = Some 3
       \<and> Containers (PodTemplateSpec.Spec (Template (Deployment.Spec d))) = [c]
       \<and> Container.Image c = ''nginx:1.0''
       \<and> Container.Ports c = [p]
       \<and> ContainerPort p = 8080)
   \<and> (\<exists>v p.
         find (\<lambda>x. named \<lparr>NamespacedName.Namespace = ''default'',
                           NamespacedName.Name = ''web-service''\<rparr>
                      (Service.ObjectMeta x)) (services convergedStore) = Some v
       \<and> ServiceSpec.Ports (Service.Spec v) = [p]
       \<and> Port p = 8080
       \<and> IntValue noAtoi (TargetPort p) = 8080
       \<and> Protocol p = ''TCP'')"
proof -
  have g: "getApp (NamespacedName exRequest) freshStore = Inr exApp"
    by (simp add: store_defs instance_defs)
  have e: "ObjectMeta.Namespace (App.ObjectMeta exApp) = ''default''"
    "ObjectMeta.Name (App.ObjectMeta exApp) = ''web''"
    "AppSpec.Replicas (App.Spec exApp) = 3" "AppSpec.Image (App.Spec exApp) = ''nginx:1.0''"
    "AppSpec.Port (App.Spec exApp) = 8080"
    by (simp_all add: exApp_def)
  from children_converged[OF g first_pass] g first_pass show ?thesis
    by (simp add: e ProtocolTCP_def)
qed

text \<open>
  C10, as stated: for every list of pods the ready count counts each pod at most once, so
  the value written to \<^verbatim>\<open>App.status.replicas\<close> always satisfies
  0 \<le> \<^verbatim>\<open>App.status.replicas\<close> \<le> number of pods listed. The counter is an
  \<^verbatim>\<open>int32\<close>: with \<open>2 ^ 31\<close> ready pods it has wrapped around, and the value written
  is negative.
\<close>

theorem ready_count_overflow:
  "length manyPods = 2 ^ 31
   \<and> sint (podsLoop manyPods 0) = - (2 ^ 31)
   \<and> writes (snd (syncStatus exApp (freshStore\<lparr>pods := manyPods\<rparr>)))
       = [WriteUpdateStatus (exApp\<lparr>App.Status := (App.Status exApp)\<lparr>AppStatus.Replicas := - (2 ^ 31)\<rparr>\<rparr>)]"
proof -
  have r: "carriesReady (exPod ''web-1'' [readyTrue])"
    by (simp add: carriesReady_def instance_defs)
  have c: "podsLoop manyPods 0 = - (2 ^ 31)"
    by (simp add: podsLoop_count manyPods_def r)
  have l: "listPods (ObjectMeta.Namespace (App.ObjectMeta exApp))
      [(''app'', ObjectMeta.Name (App.ObjectMeta exApp))] (freshStore\<lparr>pods := manyPods\<rparr>) = Inr manyPods"
    by (simp add: listPods_def manyPods_def exPod_def exApp_def freshStore_def emptyStore_def noFault_def)
  have w: "writes (snd (syncStatus exApp (freshStore\<lparr>pods := manyPods\<rparr>)))
       = [WriteUpdateStatus (exApp\<lparr>App.Status := (App.Status exApp)\<lparr>AppStatus.Replicas := - (2 ^ 31)\<rparr>\<rparr>)]"
    by (simp add: syncStatus_def l c updateStatus_def Let_def)
       (simp add: exApp_def freshStore_def emptyStore_def noFault_def named_def keyOf_def)
  show ?thesis using c w by (simp add: manyPods_def)
qed

text \<open>
  C10, amended: for every list of fewer than \<open>2 ^ 31\<close> pods, the ready count counts each
  pod at most once (a pod with several conditions of type "Ready" and value true
  contributes exactly 1), and the value written to \<^verbatim>\<open>App.status.replicas\<close>, when one
  is written, satisfies 0 \<le> \<^verbatim>\<open>App.status.replicas\<close> \<le> number of pods listed.
\<close>

theorem ready_count_bounds:
  assumes "listPods (ObjectMeta.Namespace (App.ObjectMeta app))
             [(''app'', ObjectMeta.Name (App.ObjectMeta app))] s = Inr items"
    and "length items < 2 ^ 31"
  shows "podsLoop items 0 = word_of_nat (length (filter carriesReady items))
       \<and> 0 \<le> sint (podsLoop items 0)
       \<and> sint (podsLoop items 0) \<le> int (length items)
       \<and> (writes (snd (syncStatus app s)) = writes s
          \<or> writes (snd (syncStatus app s)) =
              writes s @ [WriteUpdateStatus
                 (app\<lparr>App.Status := (App.Status app)\<lparr>AppStatus.Replicas := podsLoop items 0\<rparr>\<rparr>)])"
proof -
  let ?n = "length (filter carriesReady items)"
  have le: "?n \<le> length items" by simp
  with assms(2) have lt: "?n < 2 ^ 31" by linarith
  have c: "podsLoop items 0 = word_of_nat ?n" by (simp add: podsLoop_count)
  have "sint (word_of_nat ?n :: 32 word) = int ?n"
    using lt by (simp add: signed_of_nat signed_take_bit_int_eq_self)
  with c le have b: "0 \<le> sint (podsLoop items 0)" "sint (podsLoop items 0) \<le> int (length items)"
    by simp_all
  from assms(1) have "writes (snd (syncStatus app s)) = writes s
          \<or> writes (snd (syncStatus app s)) =
              writes s @ [WriteUpdateStatus
                 (app\<lparr>App.Status := (App.Status app)\<lparr>AppStatus.Replicas := podsLoop items 0\<rparr>\<rparr>)]"
    by (auto simp: syncStatus_def updateStatus_def Let_def split: option.splits)
  with c b show ?thesis by simp
qed

theorem ready_count_bounds_witness:
  "listPods (ObjectMeta.Namespace (App.ObjectMeta exApp))
      [(''app'', ObjectMeta.Name (App.ObjectMeta exApp))] freshStore = Inr exPods
   \<and> length exPods = 3
   \<and> PodStatus.Conditions (Pod.Status (exPods ! 0)) = [readyTrue, readyTrue]
   \<and> sint (podsLoop exPods 0) = 2
   \<and> podsLoop [exPods ! 0] 0 = 1"
proof -
  have h: "listPods (ObjectMeta.Namespace (App.ObjectMeta exApp))
      [(''app'', ObjectMeta.Name (App.ObjectMeta exApp))] freshStore = Inr exPods"
    by (simp add: store_defs instance_defs)
  have h1: "listPods (ObjectMeta.Namespace (App.ObjectMeta exApp))
      [(''app'', ObjectMeta.Name (App.ObjectMeta exApp))] (freshStore\<lparr>pods := [exPods ! 0]\<rparr>)
        = Inr [exPods ! 0]"
    by (simp add: store_defs instance_defs)
  have n: "length (filter carriesReady exPods) = 2" "length (filter carriesReady [exPods ! 0]) = 1"
    by (simp_all add: carriesReady_def instance_defs)
  have c: "PodStatus.Conditions (Pod.Status (exPods ! 0)) = [readyTrue, readyTrue]"
    by (simp add: exPods_def exPod_def)
  have l: "length exPods < 2 ^ 31" "length [exPods ! 0] < 2 ^ 31" "length exPods = 3"
    by (simp_all add: exPods_def)
  from ready_count_bounds[OF h l(1)] ready_count_bounds[OF h1 l(2)] h n c l(3)
  show ?thesis by simp
qed

end
